theory Spec2Isabelle
  imports Complex_Main
begin

section \<open>The crossover detector of \<^verbatim>\<open>main.py\<close>\<close>

text \<open>
  Closing prices are Python floats in the source, and \<^verbatim>\<open>np.mean\<close> rounds. The
  detector is given twice. First with the closes as rationals and the exact mean, which
  is what the source computes as long as no sum and no quotient is rounded; what NumPy's
  \<^verbatim>\<open>nan\<close> does is kept: the mean of an empty slice is \<^verbatim>\<open>nan\<close> (here \<open>None\<close>)
  and every comparison with it is false. Then with \<^verbatim>\<open>np.mean\<close> as a parameter and
  the floats as they are, so that nothing is assumed of the rounding. Window sizes are
  Python integers, of either sign.
\<close>

datatype signal = NoSignal | BullishCross | BearishCross

text \<open>A slice bound of Python, on a sequence of length \<open>n\<close>: a negative bound counts
  from the end, and every bound is clamped into \<open>0..n\<close>.\<close>

definition py_index :: "nat \<Rightarrow> int \<Rightarrow> nat" where
  "py_index n i = (if i < 0 then nat (max (i + int n) 0) else min (nat i) n)"

text \<open>\<^verbatim>\<open>xs[start:stop]\<close>; an omitted bound is \<open>None\<close>.\<close>

definition py_slice :: "'a list \<Rightarrow> int option \<Rightarrow> int option \<Rightarrow> 'a list" where
  "py_slice xs start stop =
     (let n = length xs;
          lo = (case start of None \<Rightarrow> 0 | Some i \<Rightarrow> py_index n i);
          hi = (case stop of None \<Rightarrow> n | Some j \<Rightarrow> py_index n j)
      in take (hi - lo) (drop lo xs))"

text \<open>The exact mean: \<^verbatim>\<open>np.mean\<close> without rounding, \<^verbatim>\<open>nan\<close> on an empty
  sequence.\<close>

definition np_mean :: "rat list \<Rightarrow> rat option" where
  "np_mean xs = (if xs = [] then None else Some (sum_list xs / of_nat (length xs)))"

text \<open>\<^verbatim>\<open>a < b\<close> on floats: false as soon as one side is \<^verbatim>\<open>nan\<close>.\<close>

definition lt_f :: "rat option \<Rightarrow> rat option \<Rightarrow> bool" where
  "lt_f a b = (case a of None \<Rightarrow> False
               | Some x \<Rightarrow> (case b of None \<Rightarrow> False | Some y \<Rightarrow> x < y))"

text \<open>
  \<^verbatim>\<open>check_crossover(data)\<close>, with the entries \<^verbatim>\<open>closes\<close>, \<^verbatim>\<open>fast_ma\<close> and
  \<^verbatim>\<open>slow_ma\<close> of \<^verbatim>\<open>data\<close> as arguments. The result names the branch taken: the
  early \<^verbatim>\<open>return\<close> and the fall-through are \<open>NoSignal\<close>, the two branches that send
  and log a message are \<open>BullishCross\<close> and \<open>BearishCross\<close>.
\<close>

definition check_crossover :: "rat list \<Rightarrow> int \<Rightarrow> int \<Rightarrow> signal" where
  "check_crossover closes fast slow =
     (if int (length closes) < slow + 2 then NoSignal
      else
        let fast_now = np_mean (py_slice closes (Some (- fast)) None);
            slow_now = np_mean (py_slice closes (Some (- slow)) None);
            fast_prev = np_mean (py_slice closes (Some (- fast - 1)) (Some (- 1)));
            slow_prev = np_mean (py_slice closes (Some (- slow - 1)) (Some (- 1)))
        in if lt_f fast_prev slow_prev \<and> lt_f slow_now fast_now then BullishCross
           else if lt_f slow_prev fast_prev \<and> lt_f fast_now slow_now then BearishCross
           else NoSignal)"

text \<open>
  A float: \<^verbatim>\<open>nan\<close>, an infinity, or a finite value, which is a rational. The
  comparison \<^verbatim>\<open>a < b\<close> of two floats is exact: it is false as soon as one side is
  \<^verbatim>\<open>nan\<close>, and \<^verbatim>\<open>a > b\<close> is \<^verbatim>\<open>b < a\<close>.
\<close>

datatype pyfloat = NaN | NegInf | Fin rat | PosInf

fun float_lt :: "pyfloat \<Rightarrow> pyfloat \<Rightarrow> bool" where
  "float_lt NaN b = False"
| "float_lt PosInf b = False"
| "float_lt NegInf b = (b \<noteq> NaN \<and> b \<noteq> NegInf)"
| "float_lt (Fin x) NaN = False"
| "float_lt (Fin x) NegInf = False"
| "float_lt (Fin x) (Fin y) = (x < y)"
| "float_lt (Fin x) PosInf = True"

text \<open>
  \<^verbatim>\<open>check_crossover(data)\<close> once more, line by line as above, with \<^verbatim>\<open>np.mean\<close> as
  the parameter \<open>mean\<close>: whatever float NumPy returns on a slice, rounded, overflown to
  an infinity or \<^verbatim>\<open>nan\<close>, the function compares those floats.
\<close>

definition check_crossover_float ::
  "('a list \<Rightarrow> pyfloat) \<Rightarrow> 'a list \<Rightarrow> int \<Rightarrow> int \<Rightarrow> signal" where
  "check_crossover_float mean closes fast slow =
     (if int (length closes) < slow + 2 then NoSignal
      else
        let fast_now = mean (py_slice closes (Some (- fast)) None);
            slow_now = mean (py_slice closes (Some (- slow)) None);
            fast_prev = mean (py_slice closes (Some (- fast - 1)) (Some (- 1)));
            slow_prev = mean (py_slice closes (Some (- slow - 1)) (Some (- 1)))
        in if float_lt fast_prev slow_prev \<and> float_lt slow_now fast_now then BullishCross
           else if float_lt slow_prev fast_prev \<and> float_lt fast_now slow_now then BearishCross
           else NoSignal)"

text \<open>The exact mean as a float, which makes the first definition an instance of the
  second.\<close>

definition float_of :: "rat option \<Rightarrow> pyfloat" where
  "float_of a = (case a of None \<Rightarrow> NaN | Some x \<Rightarrow> Fin x)"

definition exact_mean :: "rat list \<Rightarrow> pyfloat" where
  "exact_mean xs = float_of (np_mean xs)"

section \<open>Python strings and values\<close>

text \<open>
  Strings are lists of 8-bit characters and are read as ASCII text: the whitespace of
  \<^verbatim>\<open>str.split\<close> and \<^verbatim>\<open>str.strip\<close> is the ASCII whitespace of Python's \<^verbatim>\<open>str\<close>,
  and \<^verbatim>\<open>upper\<close> and \<^verbatim>\<open>lower\<close> change the letters a to z and A to Z only.
\<close>

definition is_space :: "char \<Rightarrow> bool" where
  "is_space c = (c \<in> set [CHR 0x09, CHR 0x0A, CHR 0x0B, CHR 0x0C, CHR 0x0D,
                            CHR 0x1C, CHR 0x1D, CHR 0x1E, CHR 0x1F, CHR 0x20])"

definition strip :: "string \<Rightarrow> string" where
  "strip s = rev (dropWhile is_space (rev (dropWhile is_space s)))"

text \<open>\<^verbatim>\<open>s.split()\<close>: the maximal runs of characters that are not whitespace. The
  first argument is the run being read.\<close>

fun split_acc :: "string \<Rightarrow> string \<Rightarrow> string list" where
  "split_acc cur [] = (if cur = [] then [] else [cur])"
| "split_acc cur (c # cs) =
     (if is_space c then (if cur = [] then split_acc [] cs else cur # split_acc [] cs)
      else split_acc (cur @ [c]) cs)"

definition split :: "string \<Rightarrow> string list" where
  "split s = split_acc [] s"

definition startswith :: "string \<Rightarrow> string \<Rightarrow> bool" where
  "startswith s p = (take (length p) s = p)"

definition upper_char :: "char \<Rightarrow> char" where
  "upper_char c = (let n = (of_char c :: nat) in if 97 \<le> n \<and> n \<le> 122 then char_of (n - 32) else c)"

definition lower_char :: "char \<Rightarrow> char" where
  "lower_char c = (let n = (of_char c :: nat) in if 65 \<le> n \<and> n \<le> 90 then char_of (n + 32) else c)"

definition upper :: "string \<Rightarrow> string" where
  "upper s = map upper_char s"

definition lower :: "string \<Rightarrow> string" where
  "lower s = map lower_char s"

text \<open>\<^verbatim>\<open>sep.join(xs)\<close>.\<close>

fun join :: "string \<Rightarrow> string list \<Rightarrow> string" where
  "join sep [] = []"
| "join sep [x] = x"
| "join sep (x # y # ys) = x @ sep @ join sep (y # ys)"

text \<open>\<^verbatim>\<open>int(s)\<close> in base ten: optional surrounding whitespace, an optional sign, then
  decimal digits, where single underscores may stand between digits. \<open>None\<close> is
  \<^verbatim>\<open>ValueError\<close>.\<close>

definition is_digit :: "char \<Rightarrow> bool" where
  "is_digit c = (c \<in> set ''0123456789'')"

definition digit_val :: "char \<Rightarrow> nat" where
  "digit_val c = of_char c - 48"

fun digits_ok :: "string \<Rightarrow> bool" where
  "digits_ok [] = False"
| "digits_ok [c] = is_digit c"
| "digits_ok (c # d # cs) =
     (is_digit c \<and> (if d = CHR ''_'' then digits_ok cs else digits_ok (d # cs)))"

definition digits_num :: "string \<Rightarrow> nat" where
  "digits_num s = foldl (\<lambda>a c. 10 * a + digit_val c) 0 (filter is_digit s)"

definition py_int :: "string \<Rightarrow> int option" where
  "py_int s =
     (case strip s of
        [] \<Rightarrow> None
      | c # cs \<Rightarrow>
          if c = CHR ''-'' then (if digits_ok cs then Some (- int (digits_num cs)) else None)
          else if c = CHR ''+'' then (if digits_ok cs then Some (int (digits_num cs)) else None)
          else if digits_ok (c # cs) then Some (int (digits_num (c # cs)))
          else None)"

text \<open>\<^verbatim>\<open>str(i)\<close> of an integer, as the f-strings of the source format it.\<close>

definition digit_char :: "nat \<Rightarrow> char" where
  "digit_char n = char_of (48 + n)"

function str_nat :: "nat \<Rightarrow> string" where
  "str_nat n = (if n < 10 then [digit_char n] else str_nat (n div 10) @ [digit_char (n mod 10)])"
  by pat_completeness auto
termination
  by (relation "measure id") auto

declare str_nat.simps [simp del]

definition str_int :: "int \<Rightarrow> string" where
  "str_int i = (if i < 0 then CHR ''-'' # str_nat (nat (- i)) else str_nat (nat i))"

text \<open>The values an identifier can have in a JSON document, and \<^verbatim>\<open>str\<close> on them.\<close>

datatype pyval = PNone | PInt int | PStr string

fun py_str :: "pyval \<Rightarrow> string" where
  "py_str PNone = ''None''"
| "py_str (PInt i) = str_int i"
| "py_str (PStr s) = s"

text \<open>A dictionary keeps its keys in insertion order: an association list with
  distinct keys. Assignment to a present key keeps its place.\<close>

definition dict_in :: "'k \<Rightarrow> ('k \<times> 'v) list \<Rightarrow> bool" where
  "dict_in k d = (k \<in> set (map fst d))"

definition dict_set :: "'k \<Rightarrow> 'v \<Rightarrow> ('k \<times> 'v) list \<Rightarrow> ('k \<times> 'v) list" where
  "dict_set k v d =
     (if dict_in k d then map (\<lambda>(k', v'). if k' = k then (k', v) else (k', v')) d
      else d @ [(k, v)])"

definition dict_del :: "'k \<Rightarrow> ('k \<times> 'v) list \<Rightarrow> ('k \<times> 'v) list" where
  "dict_del k d = filter (\<lambda>(k', v'). k' \<noteq> k) d"

section \<open>The configuration document\<close>

text \<open>
  The document of \<^verbatim>\<open>config.json\<close> is typed: its symbols have a name and a list
  of timeframes, and a timeframe has its three integers. The record below holds the
  three globals \<^verbatim>\<open>bot_token\<close>, \<^verbatim>\<open>chat_id\<close> and \<^verbatim>\<open>symbols\<close> that the module
  reads from it. When the document has a \<^verbatim>\<open>symbols\<close> entry, the global
  \<^verbatim>\<open>symbols\<close> is the very list \<^verbatim>\<open>config["symbols"]\<close>, and one copy of it is
  kept; when it has none, the global is an empty list of its own.
\<close>

record timeframe =
  fast_ma :: int
  slow_ma :: int
  granularity :: int

record symbol_cfg =
  name :: string
  timeframes :: "timeframe list"

record config =
  bot_token :: string
  chat_id :: pyval
  symbols :: "symbol_cfg list"

definition CONFIG_FILE :: string where
  "CONFIG_FILE = ''config.json''"

text \<open>
  The exceptions that loading can raise. \<^verbatim>\<open>open(path, "r")\<close> and reading give the
  text of the file or raise; \<^verbatim>\<open>json.load\<close>, a parameter of the model, gives the
  value of the text or raises. A JSON value is a document with its three entries, a
  document with no \<^verbatim>\<open>symbols\<close> entry (its token and chat identifier only), or a
  value that is not an object, on which the \<^verbatim>\<open>config.get\<close> of the module raises
  \<^verbatim>\<open>AttributeError\<close>.
\<close>

datatype py_exception =
  FileNotFoundError | PermissionError | IsADirectoryError | UnicodeDecodeError
  | JSONDecodeError | AttributeError

datatype json_value = Document config | DocumentNoSymbols string pyval | NotAnObject

type_synonym file_system = "string \<Rightarrow> py_exception + string"

type_synonym json_loader = "string \<Rightarrow> py_exception + json_value"

definition default_config :: config where
  "default_config = \<lparr>bot_token = [], chat_id = PStr [], symbols = []\<rparr>"

text \<open>\<^verbatim>\<open>load_config\<close>: the two exceptions of its \<^verbatim>\<open>except\<close> clause give the default
  document, any other one propagates.\<close>

definition caught :: "py_exception \<Rightarrow> bool" where
  "caught e = (e = FileNotFoundError \<or> e = JSONDecodeError)"

definition load_config :: "file_system \<Rightarrow> json_loader \<Rightarrow> py_exception + json_value" where
  "load_config fs json_load =
     (case fs CONFIG_FILE of
        Inl e \<Rightarrow> if caught e then Inr (Document default_config) else Inl e
      | Inr txt \<Rightarrow>
          (case json_load txt of
             Inl e \<Rightarrow> if caught e then Inr (Document default_config) else Inl e
           | Inr v \<Rightarrow> Inr v))"

section \<open>Monitors and the state of the process\<close>

text \<open>
  A \<^verbatim>\<open>Monitor\<close> object: its attributes, with \<open>m_started\<close> for its thread having
  been started. The objects live in a heap, a list indexed by object identity; the
  dictionary \<^verbatim>\<open>monitors\<close> maps a key to the identity of its object. A monitor that
  was stopped and deleted from the dictionary stays in the heap, inactive.
\<close>

record monitor =
  m_name :: string
  m_fast_ma :: int
  m_slow_ma :: int
  m_granularity :: int
  m_closes :: "rat list"
  m_started :: bool
  m_active :: bool

text \<open>
  The globals of the module, the messages handed to \<^verbatim>\<open>send_telegram\<close> in order,
  and the documents that \<^verbatim>\<open>save_config\<close> wrote, in order. The global
  \<^verbatim>\<open>symbols\<close> is \<^verbatim>\<open>config.get("symbols", [])\<close>: it is the list held by the
  dictionary \<^verbatim>\<open>config\<close> when the loaded document has the entry, which \<open>symbols_key\<close>
  records, and a list of its own otherwise, which the dictionary never gets. The field
  \<open>symbols\<close> of \<open>config\<close> is that global list in both cases.
\<close>

record state =
  config :: config
  symbols_key :: bool
  monitors :: "(string \<times> nat) list"
  heap :: "monitor list"
  sent :: "string list"
  saved :: "json_value list"

definition send_telegram :: "string \<Rightarrow> state \<Rightarrow> state" where
  "send_telegram txt st = st\<lparr>sent := sent st @ [txt]\<rparr>"

text \<open>\<^verbatim>\<open>save_config(config)\<close> writes the dictionary \<^verbatim>\<open>config\<close>: with the symbol
  list when the dictionary holds it, without any otherwise. Writing is taken to
  succeed.\<close>

definition document :: "state \<Rightarrow> json_value" where
  "document st =
     (if symbols_key st then Document (config st)
      else DocumentNoSymbols (bot_token (config st)) (chat_id (config st)))"

definition save_config :: "state \<Rightarrow> state" where
  "save_config st = st\<lparr>saved := saved st @ [document st]\<rparr>"

text \<open>\<^verbatim>\<open>Monitor.__init__\<close>, \<^verbatim>\<open>Monitor.start\<close> and \<^verbatim>\<open>Monitor.stop\<close>.\<close>

definition Monitor :: "string \<Rightarrow> int \<Rightarrow> int \<Rightarrow> int \<Rightarrow> monitor" where
  "Monitor n f s g =
     \<lparr>m_name = n, m_fast_ma = f, m_slow_ma = s, m_granularity = g, m_closes = [],
      m_started = False, m_active = True\<rparr>"

definition monitor_start :: "monitor \<Rightarrow> monitor" where
  "monitor_start m = m\<lparr>m_started := True\<rparr>"

definition monitor_stop :: "monitor \<Rightarrow> monitor" where
  "monitor_stop m = m\<lparr>m_active := False\<rparr>"

text \<open>The key \<^verbatim>\<open>f"{name}_{granularity}"\<close>.\<close>

definition mk_key :: "string \<Rightarrow> int \<Rightarrow> string" where
  "mk_key n g = n @ ''_'' @ str_int g"

text \<open>
  The three lines that both start paths share:
  \<^verbatim>\<open>if key not in monitors: m = Monitor(...); monitors[key] = m; m.start()\<close>.
\<close>

definition start_monitor :: "string \<Rightarrow> int \<Rightarrow> int \<Rightarrow> int \<Rightarrow> state \<Rightarrow> state" where
  "start_monitor n f s g st =
     (let key = mk_key n g
      in if \<not> dict_in key (monitors st)
         then st\<lparr>heap := heap st @ [monitor_start (Monitor n f s g)],
                 monitors := dict_set key (length (heap st)) (monitors st)\<rparr>
         else st)"

text \<open>\<^verbatim>\<open>if key in monitors: monitors[key].stop(); del monitors[key]\<close>.\<close>

definition stop_monitor :: "string \<Rightarrow> state \<Rightarrow> state" where
  "stop_monitor key st =
     (case map_of (monitors st) key of
        None \<Rightarrow> st
      | Some i \<Rightarrow> st\<lparr>heap := (heap st)[i := monitor_stop (heap st ! i)],
                       monitors := dict_del key (monitors st)\<rparr>)"

text \<open>\<^verbatim>\<open>start_all_monitors\<close>: the inner loop over the timeframes of one symbol, the
  outer loop over the symbols.\<close>

fun start_timeframes :: "string \<Rightarrow> timeframe list \<Rightarrow> state \<Rightarrow> state" where
  "start_timeframes n [] st = st"
| "start_timeframes n (tf # tfs) st =
     start_timeframes n tfs (start_monitor n (fast_ma tf) (slow_ma tf) (granularity tf) st)"

fun start_symbols :: "symbol_cfg list \<Rightarrow> state \<Rightarrow> state" where
  "start_symbols [] st = st"
| "start_symbols (entry # syms) st =
     start_symbols syms (start_timeframes (name entry) (timeframes entry) st)"

definition start_all_monitors :: "state \<Rightarrow> state" where
  "start_all_monitors st = start_symbols (symbols (config st)) st"

text \<open>The module's globals after import, and the process after
  \<^verbatim>\<open>start_all_monitors()\<close> in the main block.\<close>

definition init_state :: "config \<Rightarrow> state" where
  "init_state c =
     \<lparr>config = c, symbols_key = True, monitors = [], heap = [], sent = [], saved = []\<rparr>"

definition init_state_no_symbols :: "string \<Rightarrow> pyval \<Rightarrow> state" where
  "init_state_no_symbols t c =
     \<lparr>config = \<lparr>bot_token = t, chat_id = c, symbols = []\<rparr>, symbols_key = False,
      monitors = [], heap = [], sent = [], saved = []\<rparr>"

definition startup :: "file_system \<Rightarrow> json_loader \<Rightarrow> py_exception + state" where
  "startup fs json_load =
     (case load_config fs json_load of
        Inl e \<Rightarrow> Inl e
      | Inr NotAnObject \<Rightarrow> Inl AttributeError
      | Inr (Document c) \<Rightarrow> Inr (start_all_monitors (init_state c))
      | Inr (DocumentNoSymbols t c) \<Rightarrow> Inr (start_all_monitors (init_state_no_symbols t c)))"

section \<open>The webhook handler\<close>

text \<open>
  A message of an update: \<^verbatim>\<open>message.get("chat", {}).get("id")\<close>, which is
  \<open>PNone\<close> when absent, and \<^verbatim>\<open>message.get("text", "")\<close>.
\<close>

record message =
  msg_chat_id :: pyval
  msg_text :: string

text \<open>\<^verbatim>\<open>next((s for s in symbols if s["name"] == sym_name), None)\<close>, and the first
  timeframe of a symbol with a granularity.\<close>

definition find_symbol :: "string \<Rightarrow> symbol_cfg list \<Rightarrow> symbol_cfg option" where
  "find_symbol n syms = find (\<lambda>s. name s = n) syms"

definition find_timeframe :: "int \<Rightarrow> timeframe list \<Rightarrow> timeframe option" where
  "find_timeframe g tfs = find (\<lambda>tf. granularity tf = g) tfs"

text \<open>The source changes the dictionary that \<^verbatim>\<open>sym\<close> refers to, which is the first
  entry of the list with that name: the entry is rewritten in place.\<close>

fun update_symbol :: "string \<Rightarrow> (symbol_cfg \<Rightarrow> symbol_cfg) \<Rightarrow> symbol_cfg list \<Rightarrow> symbol_cfg list" where
  "update_symbol n f [] = []"
| "update_symbol n f (s # ss) = (if name s = n then f s # ss else s # update_symbol n f ss)"

definition set_symbols :: "symbol_cfg list \<Rightarrow> state \<Rightarrow> state" where
  "set_symbols syms st = st\<lparr>config := (config st)\<lparr>symbols := syms\<rparr>\<rparr>"

text \<open>The branch \<^verbatim>\<open>/addsymbol\<close> of the handler, on the words of the text.\<close>

definition cmd_addsymbol :: "string list \<Rightarrow> state \<Rightarrow> state" where
  "cmd_addsymbol parts st =
     (if length parts \<noteq> 5
      then send_telegram ''Usage: /addsymbol SYMBOL FAST_MA SLOW_MA GRANULARITY_SECONDS'' st
      else
        let sym_name = upper (parts ! 1) in
        case (py_int (parts ! 2), py_int (parts ! 3), py_int (parts ! 4)) of
          (Some fast_ma', Some slow_ma', Some gran) \<Rightarrow>
            let st1 = (case find_symbol sym_name (symbols (config st)) of
                         None \<Rightarrow> set_symbols (symbols (config st) @
                                   [\<lparr>name = sym_name, timeframes = []\<rparr>]) st
                       | Some entry \<Rightarrow> st);
                tfs = (case find_symbol sym_name (symbols (config st1)) of
                         None \<Rightarrow> [] | Some entry \<Rightarrow> timeframes entry)
            in if list_ex (\<lambda>tf. granularity tf = gran) tfs
               then send_telegram (sym_name @ '' already has timeframe '' @ str_int gran @ ''s'') st1
               else
                 let st2 = set_symbols
                             (update_symbol sym_name
                                (\<lambda>entry. entry\<lparr>timeframes := timeframes entry @
                                    [\<lparr>fast_ma = fast_ma', slow_ma = slow_ma', granularity = gran\<rparr>]\<rparr>)
                                (symbols (config st1))) st1;
                     st3 = save_config st2;
                     st4 = start_monitor sym_name fast_ma' slow_ma' gran st3
                 in send_telegram (''Added '' @ sym_name @ '' '' @ str_int gran @
                      ''s with fast MA='' @ str_int fast_ma' @ '' slow MA='' @ str_int slow_ma') st4
        | _ \<Rightarrow> send_telegram ''MA periods and granularity must be integers.'' st)"

text \<open>The branch \<^verbatim>\<open>/remsymbol\<close>. \<^verbatim>\<open>list.remove\<close> removes the first element equal
  to its argument.\<close>

definition cmd_remsymbol :: "string list \<Rightarrow> state \<Rightarrow> state" where
  "cmd_remsymbol parts st =
     (if length parts \<noteq> 3
      then send_telegram ''Usage: /remsymbol SYMBOL GRANULARITY_SECONDS'' st
      else
        let sym_name = upper (parts ! 1) in
        case py_int (parts ! 2) of
          None \<Rightarrow> send_telegram ''Granularity must be integer seconds.'' st
        | Some gran \<Rightarrow>
            (case find_symbol sym_name (symbols (config st)) of
               None \<Rightarrow> send_telegram (''No symbol '' @ sym_name @ '' found.'') st
             | Some entry \<Rightarrow>
                 (case find_timeframe gran (timeframes entry) of
                    None \<Rightarrow> send_telegram (''No timeframe '' @ str_int gran @ ''s found for '' @ sym_name) st
                  | Some tf_to_remove \<Rightarrow>
                      let entry' = entry\<lparr>timeframes := remove1 tf_to_remove (timeframes entry)\<rparr>;
                          st1 = set_symbols (update_symbol sym_name (\<lambda>s. entry') (symbols (config st))) st;
                          st2 = stop_monitor (mk_key sym_name gran) st1;
                          st3 = (if length (timeframes entry') = 0
                                 then set_symbols (remove1 entry' (symbols (config st2))) st2
                                 else st2);
                          st4 = save_config st3
                      in send_telegram (''Removed '' @ sym_name @ '' '' @ str_int gran @ ''s monitor.'') st4)))"

text \<open>The branches \<^verbatim>\<open>/listsymbols\<close> and \<^verbatim>\<open>/status\<close>; \<^verbatim>\<open>//\<close> is the floor division.\<close>

definition timeframe_text :: "timeframe \<Rightarrow> string" where
  "timeframe_text tf =
     str_int (granularity tf div 60) @ ''m (fast='' @ str_int (fast_ma tf) @
     '' slow='' @ str_int (slow_ma tf) @ '')''"

definition cmd_listsymbols :: "state \<Rightarrow> state" where
  "cmd_listsymbols st =
     (if symbols (config st) = [] then send_telegram ''No symbols are being monitored.'' st
      else
        let lines = map (\<lambda>entry. name entry @ '': '' @ join '', '' (map timeframe_text (timeframes entry)))
                      (symbols (config st))
        in send_telegram (''Currently monitored symbols:'' @ [CHR 0x0A] @ join [CHR 0x0A] lines) st)"

definition cmd_status :: "state \<Rightarrow> state" where
  "cmd_status st =
     (let active = map (\<lambda>(key, i). m_name (heap st ! i) @ '' '' @
                          str_int (m_granularity (heap st ! i) div 60) @ ''m'')
                     (monitors st)
      in if active \<noteq> [] then send_telegram (''Active monitors:'' @ [CHR 0x0A] @ join [CHR 0x0A] active) st
         else send_telegram ''No active monitors.'' st)"

text \<open>
  \<^verbatim>\<open>telegram_webhook\<close>. Its argument is the message of the request, \<open>None\<close> when the
  request has no JSON body or no \<^verbatim>\<open>"message"\<close>. Every path of the source returns the
  same acknowledgment \<^verbatim>\<open>{"ok": True}\<close>, so the model returns the new state only. A
  text that starts with \<^verbatim>\<open>/\<close> has a first word.
\<close>

definition telegram_webhook :: "message option \<Rightarrow> state \<Rightarrow> state" where
  "telegram_webhook data st =
     (case data of
        None \<Rightarrow> st
      | Some message \<Rightarrow>
          let txt = strip (msg_text message) in
          if py_str (msg_chat_id message) \<noteq> py_str (chat_id (config st)) then st
          else if startswith txt ''/'' then
            let parts = split txt; cmd = lower (parts ! 0) in
            if cmd = ''/addsymbol'' then cmd_addsymbol parts st
            else if cmd = ''/remsymbol'' then cmd_remsymbol parts st
            else if cmd = ''/listsymbols'' then cmd_listsymbols st
            else if cmd = ''/status'' then cmd_status st
            else send_telegram (''Unknown command. Available:'' @ [CHR 0x0A] @ ''/addsymbol'' @
                   [CHR 0x0A] @ ''/remsymbol'' @ [CHR 0x0A] @ ''/listsymbols'' @ [CHR 0x0A] @ ''/status'') st
          else st)"

text \<open>A run of the handler over the requests that arrive, one after the other.\<close>

fun run_webhook :: "message option list \<Rightarrow> state \<Rightarrow> state" where
  "run_webhook [] st = st"
| "run_webhook (d # ds) st = run_webhook ds (telegram_webhook d st)"

section \<open>What the claims speak of\<close>

text \<open>The key of a monitor object, a monitor that runs (its thread was started and it
  was not stopped), and the live workers of a key: the running monitors of the heap
  that were made for that key, registered or not.\<close>

definition key_of :: "monitor \<Rightarrow> string" where
  "key_of m = mk_key (m_name m) (m_granularity m)"

definition running :: "monitor \<Rightarrow> bool" where
  "running m = (m_started m \<and> m_active m)"

definition live_workers :: "string \<Rightarrow> state \<Rightarrow> monitor list" where
  "live_workers key st = filter (\<lambda>m. running m \<and> key_of m = key) (heap st)"

text \<open>
  The registry and the heap agree: the keys of the dictionary are distinct, every
  entry refers to a running monitor of the heap that was made for its key, and every
  running monitor of the heap is the entry of its key.
\<close>

definition registry_ok :: "state \<Rightarrow> bool" where
  "registry_ok st =
     (distinct (map fst (monitors st)) \<and>
      list_all (\<lambda>(k, i). i < length (heap st) \<and> running (heap st ! i) \<and> key_of (heap st ! i) = k)
        (monitors st) \<and>
      list_all (\<lambda>i. running (heap st ! i) \<longrightarrow>
                  map_of (monitors st) (key_of (heap st ! i)) = Some i)
        [0..<length (heap st)])"

text \<open>Every timeframe of the configuration has its key in the registry, as after
  \<^verbatim>\<open>start_all_monitors\<close>.\<close>

definition config_started :: "state \<Rightarrow> bool" where
  "config_started st =
     list_all (\<lambda>e. list_all (\<lambda>tf. dict_in (mk_key (name e) (granularity tf)) (monitors st))
                      (timeframes e))
       (symbols (config st))"

text \<open>The timeframes of a configuration with the name of their symbol, in order.\<close>

definition cfg_entries :: "symbol_cfg list \<Rightarrow> (string \<times> timeframe) list" where
  "cfg_entries syms = concat (map (\<lambda>e. map (Pair (name e)) (timeframes e)) syms)"

text \<open>Positive windows, in every timeframe of the configuration and in every running
  monitor.\<close>

definition windows_pos :: "state \<Rightarrow> bool" where
  "windows_pos st =
     (list_all (\<lambda>e. list_all (\<lambda>tf. 1 \<le> fast_ma tf \<and> 1 \<le> slow_ma tf) (timeframes e))
        (symbols (config st)) \<and>
      list_all (\<lambda>m. running m \<longrightarrow> 1 \<le> m_fast_ma m \<and> 1 \<le> m_slow_ma m) (heap st))"

text \<open>A request that, when it is an \<^verbatim>\<open>/addsymbol\<close> command of five words with
  integer windows, has positive windows.\<close>

definition addsymbol_windows_pos :: "message option \<Rightarrow> bool" where
  "addsymbol_windows_pos data =
     (case data of
        None \<Rightarrow> True
      | Some message \<Rightarrow>
          let parts = split (strip (msg_text message)) in
          if length parts = 5 \<and> lower (parts ! 0) = ''/addsymbol''
          then (case (py_int (parts ! 2), py_int (parts ! 3)) of
                  (Some f, Some s) \<Rightarrow> 1 \<le> f \<and> 1 \<le> s
                | _ \<Rightarrow> True)
          else True)"

text \<open>Upper-cased names, in every symbol of the configuration and in every monitor
  of the heap.\<close>

definition names_upper :: "state \<Rightarrow> bool" where
  "names_upper st =
     (list_all (\<lambda>e. upper (name e) = name e) (symbols (config st)) \<and>
      list_all (\<lambda>m. upper (m_name m) = m_name m) (heap st))"

text \<open>
  A well-formed configuration: the names of the symbols are distinct, and so are the
  granularities within each symbol. The key of a configured timeframe. Every key of
  the registry belongs to a configured timeframe. A consistent state: registry and
  heap agree, the configured timeframes and the registered keys are the same, and the
  configuration is well-formed.
\<close>

definition config_distinct :: "symbol_cfg list \<Rightarrow> bool" where
  "config_distinct syms =
     (distinct (map name syms) \<and>
      list_all (\<lambda>e. distinct (map granularity (timeframes e))) syms)"

definition entry_key :: "string \<times> timeframe \<Rightarrow> string" where
  "entry_key x = mk_key (fst x) (granularity (snd x))"

definition registry_configured :: "state \<Rightarrow> bool" where
  "registry_configured st =
     list_all (\<lambda>(k, i). k \<in> set (map entry_key (cfg_entries (symbols (config st)))))
       (monitors st)"

definition consistent :: "state \<Rightarrow> bool" where
  "consistent st =
     (registry_ok st \<and> config_started st \<and> registry_configured st \<and>
      config_distinct (symbols (config st)))"

section \<open>The detector as the specification words it\<close>

text \<open>The last \<open>n\<close> closes of a series (all of them when there are fewer, none when
  \<open>n\<close> is not positive), their arithmetic mean, and the four means of the
  specification: now, and on the series without its latest close.\<close>

definition spec_last :: "int \<Rightarrow> 'a list \<Rightarrow> 'a list" where
  "spec_last n xs = drop (length xs - nat n) xs"

definition spec_ma :: "int \<Rightarrow> rat list \<Rightarrow> rat option" where
  "spec_ma n xs = np_mean (spec_last n xs)"

definition spec_bullish :: "rat list \<Rightarrow> int \<Rightarrow> int \<Rightarrow> bool" where
  "spec_bullish closes f s =
     (lt_f (spec_ma f (butlast closes)) (spec_ma s (butlast closes)) \<and>
      lt_f (spec_ma s closes) (spec_ma f closes))"

definition spec_bearish :: "rat list \<Rightarrow> int \<Rightarrow> int \<Rightarrow> bool" where
  "spec_bearish closes f s =
     (lt_f (spec_ma s (butlast closes)) (spec_ma f (butlast closes)) \<and>
      lt_f (spec_ma f closes) (spec_ma s closes))"



section \<open>Files and documents of the examples\<close>

text \<open>
  A file whose bytes are not text, so that reading it raises; a file that holds the
  JSON list \<^verbatim>\<open>[1, 2]\<close>, with what \<^verbatim>\<open>json.load\<close> makes of that text; and a
  document whose symbol is written in lower case.
\<close>

definition undecodable_file :: file_system where
  "undecodable_file path = Inl UnicodeDecodeError"

definition list_file :: file_system where
  "list_file path = (if path = CONFIG_FILE then Inr ''[1, 2]'' else Inl FileNotFoundError)"

definition json_load_list :: json_loader where
  "json_load_list s = (if s = ''[1, 2]'' then Inr NotAnObject else Inl JSONDecodeError)"

definition lower_case_config :: config where
  "lower_case_config =
     \<lparr>bot_token = ''T'', chat_id = PStr ''42'',
      symbols = [\<lparr>name = ''eurusd'',
                  timeframes = [\<lparr>fast_ma = 5, slow_ma = 20, granularity = 60\<rparr>]\<rparr>]\<rparr>"

section \<open>Slices and the last closes\<close>

lemma py_slice_last:
  assumes "1 \<le> n"
  shows "py_slice xs (Some (- n)) None = spec_last n xs"
proof -
  have "py_index (length xs) (- n) = length xs - nat n"
    using assms by (simp add: py_index_def)
  then show ?thesis
    by (simp add: py_slice_def spec_last_def)
qed

lemma py_slice_prev:
  assumes "0 \<le> n" and "xs \<noteq> []"
  shows "py_slice xs (Some (- n - 1)) (Some (- 1)) = spec_last n (butlast xs)"
proof -
  let ?l = "length xs"
  have pos: "0 < ?l" using assms(2) by simp
  have lo: "py_index ?l (- n - 1) = (?l - 1) - nat n"
    using assms(1) pos by (simp add: py_index_def)
  have hi: "py_index ?l (- 1) = ?l - 1"
    using pos by (simp add: py_index_def)
  have "take (?l - 1 - (?l - 1 - nat n)) (drop (?l - 1 - nat n) xs)
        = drop (?l - 1 - nat n) (take (?l - 1) xs)"
    by (simp add: drop_take)
  then show ?thesis
    by (simp add: py_slice_def spec_last_def lo hi butlast_conv_take Let_def)
qed

lemma py_slice_zero_prev: "py_slice xs (Some (- 1)) (Some (- 1)) = []"
  by (simp add: py_slice_def)

lemma lt_f_None [simp]: "lt_f None b = False" "lt_f a None = False"
  by (simp_all add: lt_f_def split: option.splits)

lemma lt_f_irrefl: "\<not> lt_f a a"
  by (simp add: lt_f_def split: option.splits)

lemma lt_f_asym: "lt_f a b \<Longrightarrow> \<not> lt_f b a"
  by (auto simp add: lt_f_def split: option.splits)

lemma spec_ma_zero: "spec_ma 0 xs = None"
  by (simp add: spec_ma_def spec_last_def np_mean_def)

lemma code_prev_eq_spec:
  assumes "0 \<le> n" and "xs \<noteq> []"
  shows "np_mean (py_slice xs (Some (- n - 1)) (Some (- 1))) = spec_ma n (butlast xs)"
  using assms by (simp add: spec_ma_def py_slice_prev)

lemma code_now_eq_spec:
  assumes "1 \<le> n"
  shows "np_mean (py_slice xs (Some (- n)) None) = spec_ma n xs"
  using assms by (simp add: spec_ma_def py_slice_last)

text \<open>With enough history the detector is its two comparisons.\<close>

lemma check_crossover_enough:
  assumes "slow + 2 \<le> int (length closes)"
  shows "check_crossover closes fast slow =
     (if lt_f (np_mean (py_slice closes (Some (- fast - 1)) (Some (- 1))))
              (np_mean (py_slice closes (Some (- slow - 1)) (Some (- 1)))) \<and>
         lt_f (np_mean (py_slice closes (Some (- slow)) None))
              (np_mean (py_slice closes (Some (- fast)) None))
      then BullishCross
      else if lt_f (np_mean (py_slice closes (Some (- slow - 1)) (Some (- 1))))
                   (np_mean (py_slice closes (Some (- fast - 1)) (Some (- 1)))) \<and>
              lt_f (np_mean (py_slice closes (Some (- fast)) None))
                   (np_mean (py_slice closes (Some (- slow)) None))
      then BearishCross else NoSignal)"
  using assms by (simp add: check_crossover_def Let_def)

text \<open>A window of zero makes the source read the whole series for the mean now, but
  its mean before is \<^verbatim>\<open>nan\<close>, as the mean of no closes is: no comparison holds.\<close>

lemma code_bullish_eq_spec:
  assumes "0 \<le> f" and "0 \<le> s" and "closes \<noteq> []"
  shows "(lt_f (np_mean (py_slice closes (Some (- f - 1)) (Some (- 1))))
              (np_mean (py_slice closes (Some (- s - 1)) (Some (- 1)))) \<and>
         lt_f (np_mean (py_slice closes (Some (- s)) None))
              (np_mean (py_slice closes (Some (- f)) None))) = spec_bullish closes f s"
proof (cases "f = 0 \<or> s = 0")
  case True
  then show ?thesis
    using assms by (auto simp add: spec_bullish_def code_prev_eq_spec spec_ma_zero)
next
  case False
  then have "1 \<le> f" "1 \<le> s" using assms by simp_all
  then show ?thesis
    using assms by (simp add: spec_bullish_def code_prev_eq_spec code_now_eq_spec)
qed

lemma code_bearish_eq_spec:
  assumes "0 \<le> f" and "0 \<le> s" and "closes \<noteq> []"
  shows "(lt_f (np_mean (py_slice closes (Some (- s - 1)) (Some (- 1))))
              (np_mean (py_slice closes (Some (- f - 1)) (Some (- 1)))) \<and>
         lt_f (np_mean (py_slice closes (Some (- f)) None))
              (np_mean (py_slice closes (Some (- s)) None))) = spec_bearish closes f s"
proof (cases "f = 0 \<or> s = 0")
  case True
  then show ?thesis
    using assms by (auto simp add: spec_bearish_def code_prev_eq_spec spec_ma_zero)
next
  case False
  then have "1 \<le> f" "1 \<le> s" using assms by simp_all
  then show ?thesis
    using assms by (simp add: spec_bearish_def code_prev_eq_spec code_now_eq_spec)
qed

lemma spec_not_both: "\<not> (spec_bullish closes f s \<and> spec_bearish closes f s)"
  by (auto simp add: spec_bullish_def spec_bearish_def dest: lt_f_asym)

lemma check_crossover_by_spec:
  assumes "0 \<le> f" and "0 \<le> s" and "s + 2 \<le> int (length closes)"
  shows "check_crossover closes f s =
      (if spec_bullish closes f s then BullishCross
       else if spec_bearish closes f s then BearishCross else NoSignal)"
proof -
  have ne: "closes \<noteq> []" using assms by auto
  show ?thesis
    using check_crossover_enough [OF assms(3), of f]
    by (simp only: code_bullish_eq_spec [OF assms(1,2) ne] code_bearish_eq_spec [OF assms(1,2) ne])
qed

section \<open>The detector on floats\<close>



lemma float_lt_float_of: "float_lt (float_of a) (float_of b) = lt_f a b"
  by (simp add: float_of_def lt_f_def split: option.splits)

text \<open>The detector on rationals is the detector on floats with the exact mean.\<close>

lemma check_crossover_exact:
  "check_crossover closes fast slow = check_crossover_float exact_mean closes fast slow"
  by (simp add: check_crossover_def check_crossover_float_def exact_mean_def Let_def
        float_lt_float_of)



section \<open>The state after each step of the handler\<close>

lemma send_telegram_sel [simp]:
  "config (send_telegram t st) = config st"
  "symbols_key (send_telegram t st) = symbols_key st"
  "monitors (send_telegram t st) = monitors st"
  "heap (send_telegram t st) = heap st"
  "saved (send_telegram t st) = saved st"
  "sent (send_telegram t st) = sent st @ [t]"
  by (simp_all add: send_telegram_def)

lemma save_config_sel [simp]:
  "config (save_config st) = config st"
  "symbols_key (save_config st) = symbols_key st"
  "monitors (save_config st) = monitors st"
  "heap (save_config st) = heap st"
  "saved (save_config st) = saved st @ [document st]"
  "sent (save_config st) = sent st"
  by (simp_all add: save_config_def)

lemma set_symbols_sel [simp]:
  "symbols (config (set_symbols syms st)) = syms"
  "chat_id (config (set_symbols syms st)) = chat_id (config st)"
  "bot_token (config (set_symbols syms st)) = bot_token (config st)"
  "symbols_key (set_symbols syms st) = symbols_key st"
  "monitors (set_symbols syms st) = monitors st"
  "heap (set_symbols syms st) = heap st"
  "saved (set_symbols syms st) = saved st"
  "sent (set_symbols syms st) = sent st"
  by (simp_all add: set_symbols_def)

lemma start_monitor_sel [simp]:
  "config (start_monitor n f s g st) = config st"
  "symbols_key (start_monitor n f s g st) = symbols_key st"
  "saved (start_monitor n f s g st) = saved st"
  "sent (start_monitor n f s g st) = sent st"
  by (simp_all add: start_monitor_def Let_def)

lemma stop_monitor_sel [simp]:
  "config (stop_monitor k st) = config st"
  "symbols_key (stop_monitor k st) = symbols_key st"
  "saved (stop_monitor k st) = saved st"
  "sent (stop_monitor k st) = sent st"
  by (simp_all add: stop_monitor_def split: option.splits)

text \<open>The document that would be written depends on the configuration only.\<close>

lemma document_cong:
  assumes "config st' = config st" and "symbols_key st' = symbols_key st"
  shows "document st' = document st"
  using assms by (simp add: document_def)

lemma document_sel [simp]:
  "document (send_telegram t st) = document st"
  "document (save_config st) = document st"
  "document (start_monitor n f s g st) = document st"
  "document (stop_monitor k st) = document st"
  by (simp_all add: document_def)

lemma document_with_key:
  assumes "symbols_key st"
  shows "document st = Document (config st)"
  using assms by (simp add: document_def)

lemmas char_eval = char_of_def bit_Suc_0_iff
lemmas str_eval = str_int_def str_nat.simps digit_char_def char_eval
lemmas text_eval = strip_def split_def is_space_def startswith_def lower_def lower_char_def
  upper_def upper_char_def py_int_def is_digit_def digits_num_def digit_val_def char_eval

lemma find_symbol_Some:
  assumes "find_symbol n syms = Some e"
  shows "e \<in> set syms" and "name e = n"
  using assms by (auto simp add: find_symbol_def find_Some_iff)

lemma find_symbol_None: "find_symbol n syms = None \<longleftrightarrow> n \<notin> set (map name syms)"
  by (auto simp add: find_symbol_def find_None_iff)

lemma find_timeframe_Some:
  assumes "find_timeframe g tfs = Some tf"
  shows "tf \<in> set tfs" and "granularity tf = g"
  using assms by (auto simp add: find_timeframe_def find_Some_iff)

lemma find_timeframe_None: "find_timeframe g tfs = None \<longleftrightarrow> g \<notin> set (map granularity tfs)"
  by (auto simp add: find_timeframe_def find_None_iff)

lemma set_update_symbol:
  "set (update_symbol n f syms) \<subseteq> set syms \<union> f ` {e \<in> set syms. name e = n}"
  by (induction syms) auto

lemma dict_del_absent: "\<not> dict_in k d \<Longrightarrow> dict_del k d = d"
  by (induction d) (auto simp add: dict_in_def dict_del_def)

lemma dict_in_map_of: "dict_in k d \<longleftrightarrow> map_of d k \<noteq> None"
  by (simp add: dict_in_def map_of_eq_None_iff)

lemma monitors_start_monitor:
  "monitors (start_monitor n f s g st) =
     (if dict_in (mk_key n g) (monitors st) then monitors st
      else monitors st @ [(mk_key n g, length (heap st))])"
  by (simp add: start_monitor_def Let_def dict_set_def)

lemma heap_start_monitor:
  "heap (start_monitor n f s g st) =
     (if dict_in (mk_key n g) (monitors st) then heap st
      else heap st @ [monitor_start (Monitor n f s g)])"
  by (simp add: start_monitor_def Let_def)

lemma monitors_stop_monitor:
  "monitors (stop_monitor k st) = dict_del k (monitors st)"
  by (simp add: stop_monitor_def dict_del_absent dict_in_map_of split: option.splits)

lemma heap_stop_monitor:
  "heap (stop_monitor k st) =
     (case map_of (monitors st) k of None \<Rightarrow> heap st
      | Some i \<Rightarrow> (heap st)[i := monitor_stop (heap st ! i)])"
  by (simp add: stop_monitor_def split: option.splits)

lemma list_all_stop:
  assumes "list_all Q hp" and "\<And>m. Q m \<Longrightarrow> Q (monitor_stop m)"
  shows "list_all Q (hp[i := monitor_stop (hp ! i)])"
proof (cases "i < length hp")
  case True
  then show ?thesis
    using assms by (auto simp add: list_all_iff set_conv_nth nth_list_update)
next
  case False
  then show ?thesis using assms(1) by (simp add: list_update_beyond not_less)
qed

text \<open>The branch \<^verbatim>\<open>/remsymbol\<close> when the symbol and the timeframe are found.\<close>

lemma cmd_remsymbol_found:
  assumes "length parts = 3" and "py_int (parts ! 2) = Some g"
    and "find_symbol (upper (parts ! 1)) (symbols (config st)) = Some e"
    and "find_timeframe g (timeframes e) = Some tf"
    and "e' = e\<lparr>timeframes := remove1 tf (timeframes e)\<rparr>"
  shows "symbols (config (cmd_remsymbol parts st)) =
           (if timeframes e' = []
            then remove1 e' (update_symbol (upper (parts ! 1)) (\<lambda>s. e') (symbols (config st)))
            else update_symbol (upper (parts ! 1)) (\<lambda>s. e') (symbols (config st)))"
    and "chat_id (config (cmd_remsymbol parts st)) = chat_id (config st)"
    and "bot_token (config (cmd_remsymbol parts st)) = bot_token (config st)"
    and "monitors (cmd_remsymbol parts st) = dict_del (mk_key (upper (parts ! 1)) g) (monitors st)"
    and "heap (cmd_remsymbol parts st) =
           (case map_of (monitors st) (mk_key (upper (parts ! 1)) g) of None \<Rightarrow> heap st
            | Some i \<Rightarrow> (heap st)[i := monitor_stop (heap st ! i)])"
    and "saved (cmd_remsymbol parts st) = saved st @ [document (cmd_remsymbol parts st)]"
    and "sent (cmd_remsymbol parts st) =
           sent st @ [''Removed '' @ upper (parts ! 1) @ '' '' @ str_int g @ ''s monitor.'']"
  using assms
  by (simp_all add: cmd_remsymbol_def Let_def monitors_stop_monitor heap_stop_monitor
        split: option.splits)

lemma cmd_remsymbol_symbols_key:
  "symbols_key (cmd_remsymbol parts st) = symbols_key st"
  by (simp add: cmd_remsymbol_def Let_def split: option.splits)

text \<open>The other paths of \<^verbatim>\<open>/remsymbol\<close> send one message and change nothing else.\<close>

lemma cmd_remsymbol_not_found:
  assumes "length parts \<noteq> 3 \<or> py_int (parts ! 2) = None \<or>
      find_symbol (upper (parts ! 1)) (symbols (config st)) = None \<or>
      (\<exists>g e. py_int (parts ! 2) = Some g \<and>
         find_symbol (upper (parts ! 1)) (symbols (config st)) = Some e \<and>
         find_timeframe g (timeframes e) = None)"
  shows "\<exists>t. cmd_remsymbol parts st = send_telegram t st"
  using assms by (auto simp add: cmd_remsymbol_def Let_def split: option.splits)

text \<open>A property of the symbols and a property of the monitors that the two
  commands keep, when the entries they write and the monitors they make have them.\<close>

lemma cmd_addsymbol_keeps:
  assumes syms: "list_all P (symbols (config st))" and hp: "list_all Q (heap st)"
    and new: "P \<lparr>name = upper (parts ! 1), timeframes = []\<rparr>"
    and add: "\<And>e f s g. P e \<Longrightarrow> name e = upper (parts ! 1) \<Longrightarrow> py_int (parts ! 2) = Some f \<Longrightarrow>
        py_int (parts ! 3) = Some s \<Longrightarrow>
        P (e\<lparr>timeframes := timeframes e @ [\<lparr>fast_ma = f, slow_ma = s, granularity = g\<rparr>]\<rparr>)"
    and mon: "\<And>f s g. py_int (parts ! 2) = Some f \<Longrightarrow> py_int (parts ! 3) = Some s \<Longrightarrow>
        Q (monitor_start (Monitor (upper (parts ! 1)) f s g))"
  shows "list_all P (symbols (config (cmd_addsymbol parts st))) \<and>
         list_all Q (heap (cmd_addsymbol parts st))"
proof (cases "length parts = 5 \<and> py_int (parts ! 2) \<noteq> None \<and> py_int (parts ! 3) \<noteq> None \<and>
    py_int (parts ! 4) \<noteq> None")
  case False
  then show ?thesis
    using syms hp by (auto simp add: cmd_addsymbol_def Let_def split: option.splits)
next
  case True
  then obtain f s g where args: "length parts = 5" "py_int (parts ! 2) = Some f"
      "py_int (parts ! 3) = Some s" "py_int (parts ! 4) = Some g"
    by auto
  let ?n = "upper (parts ! 1)"
  let ?tf = "\<lparr>fast_ma = f, slow_ma = s, granularity = g\<rparr>"
  let ?syms1 = "(case find_symbol ?n (symbols (config st)) of
       None \<Rightarrow> symbols (config st) @ [\<lparr>name = ?n, timeframes = []\<rparr>]
     | Some e \<Rightarrow> symbols (config st))"
  have s1: "list_all P ?syms1"
    using syms new by (simp split: option.splits)
  have "\<forall>e \<in> set (update_symbol ?n (\<lambda>e. e\<lparr>timeframes := timeframes e @ [?tf]\<rparr>) ?syms1). P e"
  proof
    fix e assume "e \<in> set (update_symbol ?n (\<lambda>e. e\<lparr>timeframes := timeframes e @ [?tf]\<rparr>) ?syms1)"
    then have "e \<in> set ?syms1 \<or> (\<exists>e0 \<in> set ?syms1. name e0 = ?n \<and> e = e0\<lparr>timeframes := timeframes e0 @ [?tf]\<rparr>)"
      using set_update_symbol [of ?n "\<lambda>e. e\<lparr>timeframes := timeframes e @ [?tf]\<rparr>" ?syms1] by auto
    then show "P e"
      using s1 add args by (auto simp add: list_all_iff)
  qed
  then have s2: "list_all P (update_symbol ?n (\<lambda>e. e\<lparr>timeframes := timeframes e @ [?tf]\<rparr>) ?syms1)"
    by (simp add: list_all_iff)
  have h2: "list_all Q (heap st @ [monitor_start (Monitor ?n f s g)])"
    using hp mon args by simp
  show ?thesis
    using args s1 s2 syms hp h2
    by (auto simp add: cmd_addsymbol_def Let_def heap_start_monitor split: option.splits)
qed

lemma cmd_remsymbol_keeps:
  assumes syms: "list_all P (symbols (config st))" and hp: "list_all Q (heap st)"
    and rem: "\<And>e tf. P e \<Longrightarrow> P (e\<lparr>timeframes := remove1 tf (timeframes e)\<rparr>)"
    and stop: "\<And>m. Q m \<Longrightarrow> Q (monitor_stop m)"
  shows "list_all P (symbols (config (cmd_remsymbol parts st))) \<and>
         list_all Q (heap (cmd_remsymbol parts st))"
proof (cases "\<exists>g e tf. length parts = 3 \<and> py_int (parts ! 2) = Some g \<and>
    find_symbol (upper (parts ! 1)) (symbols (config st)) = Some e \<and>
    find_timeframe g (timeframes e) = Some tf")
  case True
  then obtain g e tf where found: "length parts = 3" "py_int (parts ! 2) = Some g"
      "find_symbol (upper (parts ! 1)) (symbols (config st)) = Some e"
      "find_timeframe g (timeframes e) = Some tf"
    by blast
  define e' where "e' = e\<lparr>timeframes := remove1 tf (timeframes e)\<rparr>"
  have "P e"
    using find_symbol_Some(1) [OF found(3)] syms by (simp add: list_all_iff)
  then have pe': "P e'" unfolding e'_def by (rule rem)
  have s: "list_all P (update_symbol (upper (parts ! 1)) (\<lambda>s. e') (symbols (config st)))"
    using set_update_symbol [of "upper (parts ! 1)" "\<lambda>s. e'" "symbols (config st)"] syms pe'
    by (auto simp add: list_all_iff)
  have r: "list_all P (remove1 x xs)" if "list_all P xs" for x xs
    using that by (auto simp add: list_all_iff dest: notin_set_remove1)
  have h: "list_all Q (case map_of (monitors st) k of None \<Rightarrow> heap st
      | Some i \<Rightarrow> (heap st)[i := monitor_stop (heap st ! i)])" for k
    using hp stop list_all_stop [of Q "heap st"] by (auto split: option.splits)
  show ?thesis
    using s r [OF s] h
    by (simp only: cmd_remsymbol_found(1,5) [OF found e'_def] split: if_splits) simp
next
  case False
  then have "\<exists>t. cmd_remsymbol parts st = send_telegram t st"
    by (intro cmd_remsymbol_not_found) (metis option.exhaust)
  then show ?thesis using syms hp by auto
qed

section \<open>Upper case is idempotent\<close>

lemma upper_char_other:
  assumes "\<not> (97 \<le> (of_char c :: nat) \<and> (of_char c :: nat) \<le> 122)"
  shows "upper_char c = c"
  using assms unfolding upper_char_def Let_def by (rule if_not_P)

lemma upper_char_idem: "upper_char (upper_char c) = upper_char c"
proof (cases "97 \<le> (of_char c :: nat) \<and> (of_char c :: nat) \<le> 122")
  case True
  define u where "u = upper_char c"
  have "u = char_of (of_char c - 32 :: nat)"
    using True unfolding u_def upper_char_def Let_def by (rule if_P)
  moreover have "(of_char c - 32 :: nat) < 256" using True by arith
  ultimately have "(of_char u :: nat) = of_char c - 32"
    by (simp only: of_char_of mod_less)
  then have "\<not> (97 \<le> (of_char u :: nat) \<and> (of_char u :: nat) \<le> 122)"
    using True by arith
  then have "upper_char u = u"
    by (rule upper_char_other)
  then show ?thesis by (simp only: u_def)
next
  case False
  then have "upper_char c = c" by (rule upper_char_other)
  then show ?thesis by simp
qed

lemma upper_idem: "upper (upper s) = upper s"
  by (simp add: upper_def upper_char_idem)

section \<open>The first word of a stripped text\<close>

lemma split_acc_cur:
  assumes "cur \<noteq> []"
  shows "\<exists>w ws. split_acc cur s = (cur @ w) # ws"
  using assms
proof (induction s arbitrary: cur)
  case Nil
  then show ?case by simp
next
  case (Cons c cs)
  show ?case
  proof (cases "is_space c")
    case True
    then show ?thesis using Cons.prems by simp
  next
    case False
    from Cons.IH [of "cur @ [c]"] obtain w ws where "split_acc (cur @ [c]) cs = ((cur @ [c]) @ w) # ws"
      by auto
    then show ?thesis using False by simp
  qed
qed

lemma strip_head:
  "strip t = [] \<or> (\<exists>x s. strip t = x # s \<and> \<not> is_space x)"
proof (cases "dropWhile is_space t")
  case Nil
  show ?thesis unfolding strip_def Nil by simp
next
  case (Cons x u)
  then have nx: "\<not> is_space x"
    by (metis hd_dropWhile list.distinct(1) list.sel(1))
  have "dropWhile is_space (rev u @ [x]) = dropWhile is_space (rev u) @ [x]"
    using nx by (simp add: dropWhile_append)
  then have "strip t = x # rev (dropWhile is_space (rev u))"
    using Cons by (simp add: strip_def)
  then show ?thesis using nx by blast
qed

lemma split_strip_command:
  assumes "split (strip t) = c # rest"
  shows "startswith (strip t) ''/'' = startswith c ''/''"
proof -
  from strip_head [of t] show ?thesis
  proof
    assume "strip t = []"
    then show ?thesis using assms by (simp add: split_def)
  next
    assume "\<exists>x s. strip t = x # s \<and> \<not> is_space x"
    then obtain x s where st: "strip t = x # s" and nx: "\<not> is_space x" by blast
    from split_acc_cur [of "[x]" s] obtain w ws where "split_acc [x] s = ([x] @ w) # ws" by auto
    then have "split (strip t) = (x # w) # ws"
      using st nx by (simp add: split_def)
    then have "c = x # w" using assms by simp
    then show ?thesis using st by (simp add: startswith_def)
  qed
qed

lemma split_strip_empty:
  assumes "split (strip t) = []"
  shows "\<not> startswith (strip t) ''/''"
proof -
  from strip_head [of t] show ?thesis
  proof
    assume "strip t = []"
    then show ?thesis by (simp add: startswith_def)
  next
    assume "\<exists>x s. strip t = x # s \<and> \<not> is_space x"
    then obtain x s where st: "strip t = x # s" and nx: "\<not> is_space x" by blast
    from split_acc_cur [of "[x]" s] obtain w ws where "split_acc [x] s = ([x] @ w) # ws" by auto
    then have "split (strip t) = (x # w) # ws"
      using st nx by (simp add: split_def)
    then show ?thesis using assms by simp
  qed
qed

section \<open>Positive windows are kept when the commands carry them\<close>

lemma windows_pos_addsymbol:
  assumes inv: "windows_pos st"
    and pos: "\<And>f s. length parts = 5 \<Longrightarrow> py_int (parts ! 2) = Some f \<Longrightarrow>
        py_int (parts ! 3) = Some s \<Longrightarrow> 1 \<le> f \<and> 1 \<le> s"
  shows "windows_pos (cmd_addsymbol parts st)"
proof (cases "length parts = 5")
  case False
  then show ?thesis using inv by (simp add: cmd_addsymbol_def windows_pos_def)
next
  case True
  show ?thesis
    unfolding windows_pos_def
  proof (rule cmd_addsymbol_keeps)
    show "list_all (\<lambda>e. list_all (\<lambda>tf. 1 \<le> fast_ma tf \<and> 1 \<le> slow_ma tf) (timeframes e))
        (symbols (config st))"
      using inv by (simp add: windows_pos_def)
    show "list_all (\<lambda>m. running m \<longrightarrow> 1 \<le> m_fast_ma m \<and> 1 \<le> m_slow_ma m) (heap st)"
      using inv by (simp add: windows_pos_def)
  qed (use pos [OF True] in \<open>simp_all add: Monitor_def monitor_start_def\<close>)
qed

lemma windows_pos_remsymbol:
  assumes inv: "windows_pos st"
  shows "windows_pos (cmd_remsymbol parts st)"
  unfolding windows_pos_def
proof (rule cmd_remsymbol_keeps)
  show "list_all (\<lambda>e. list_all (\<lambda>tf. 1 \<le> fast_ma tf \<and> 1 \<le> slow_ma tf) (timeframes e))
      (symbols (config st))"
    using inv by (simp add: windows_pos_def)
  show "list_all (\<lambda>m. running m \<longrightarrow> 1 \<le> m_fast_ma m \<and> 1 \<le> m_slow_ma m) (heap st)"
    using inv by (simp add: windows_pos_def)
qed (auto simp add: list_all_iff running_def monitor_stop_def dest: notin_set_remove1)

lemma windows_pos_step:
  assumes "windows_pos st" and "addsymbol_windows_pos d"
  shows "windows_pos (telegram_webhook d st)"
proof (cases d)
  case None
  then show ?thesis using assms by (simp add: telegram_webhook_def)
next
  case (Some m)
  let ?parts = "split (strip (msg_text m))"
  have other: "windows_pos (cmd_listsymbols st)" "windows_pos (cmd_status st)"
    "\<And>t. windows_pos (send_telegram t st)"
    using assms(1) by (simp_all add: windows_pos_def cmd_listsymbols_def cmd_status_def Let_def)
  have add: "windows_pos (cmd_addsymbol ?parts st)" if "lower (?parts ! 0) = ''/addsymbol''"
    using assms(1)
  proof (rule windows_pos_addsymbol)
    fix f s assume "length ?parts = 5" "py_int (?parts ! 2) = Some f" "py_int (?parts ! 3) = Some s"
    then show "1 \<le> f \<and> 1 \<le> s"
      using assms(2) that Some by (simp add: addsymbol_windows_pos_def Let_def)
  qed
  show ?thesis
    using Some assms(1) other add windows_pos_remsymbol [OF assms(1)]
    by (simp add: telegram_webhook_def Let_def)
qed

lemma windows_pos_run:
  assumes "windows_pos st" and "list_all addsymbol_windows_pos ds"
  shows "windows_pos (run_webhook ds st)"
  using assms by (induction ds arbitrary: st) (simp_all add: windows_pos_step)

section \<open>Upper-cased names are kept, and the case of the argument does not matter\<close>

lemma names_upper_step:
  assumes "names_upper st"
  shows "names_upper (telegram_webhook d st)"
proof (cases d)
  case None
  then show ?thesis using assms by (simp add: telegram_webhook_def)
next
  case (Some m)
  have other: "names_upper (cmd_listsymbols st)" "names_upper (cmd_status st)"
    "\<And>t. names_upper (send_telegram t st)"
    using assms by (simp_all add: names_upper_def cmd_listsymbols_def cmd_status_def Let_def)
  have add: "names_upper (cmd_addsymbol parts st)" for parts
    unfolding names_upper_def
    by (rule cmd_addsymbol_keeps)
      (use assms in \<open>simp_all add: names_upper_def upper_idem Monitor_def monitor_start_def\<close>)
  have rem: "names_upper (cmd_remsymbol parts st)" for parts
    unfolding names_upper_def
    by (rule cmd_remsymbol_keeps)
      (use assms in \<open>simp_all add: names_upper_def monitor_stop_def\<close>)
  show ?thesis
    using Some assms other add rem by (simp add: telegram_webhook_def Let_def)
qed

lemma names_upper_run:
  assumes "names_upper st"
  shows "names_upper (run_webhook ds st)"
  using assms by (induction ds arbitrary: st) (simp_all add: names_upper_step)

lemma webhook_symbol_case:
  assumes chat: "msg_chat_id m1 = msg_chat_id m2"
    and t1: "split (strip (msg_text m1)) = c # a # rest"
    and t2: "split (strip (msg_text m2)) = c # b # rest"
    and up: "upper a = upper b"
  shows "telegram_webhook (Some m1) st = telegram_webhook (Some m2) st"
proof -
  have sw: "startswith (strip (msg_text m1)) ''/'' = startswith (strip (msg_text m2)) ''/''"
    using split_strip_command [OF t1] split_strip_command [OF t2] by simp
  have add: "cmd_addsymbol (c # a # rest) st = cmd_addsymbol (c # b # rest) st"
    using up by (simp add: cmd_addsymbol_def)
  have rem: "cmd_remsymbol (c # a # rest) st = cmd_remsymbol (c # b # rest) st"
    using up by (simp add: cmd_remsymbol_def)
  show ?thesis
    using chat sw add rem by (simp add: telegram_webhook_def Let_def t1 t2)
qed

section \<open>Starting the monitors of a configuration\<close>

lemma start_timeframes_config [simp]:
  "config (start_timeframes n tfs st) = config st"
  "sent (start_timeframes n tfs st) = sent st"
  "saved (start_timeframes n tfs st) = saved st"
  by (induction tfs arbitrary: st) simp_all

lemma start_symbols_config [simp]:
  "config (start_symbols syms st) = config st"
  "sent (start_symbols syms st) = sent st"
  "saved (start_symbols syms st) = saved st"
  by (induction syms arbitrary: st) simp_all

lemma start_timeframes_keeps:
  assumes "list_all Q (heap st)"
    and "\<And>tf. tf \<in> set tfs \<Longrightarrow> Q (monitor_start (Monitor n (fast_ma tf) (slow_ma tf) (granularity tf)))"
  shows "list_all Q (heap (start_timeframes n tfs st))"
  using assms by (induction tfs arbitrary: st) (simp_all add: heap_start_monitor)

lemma start_symbols_keeps:
  assumes "list_all Q (heap st)"
    and "\<And>e tf. e \<in> set syms \<Longrightarrow> tf \<in> set (timeframes e) \<Longrightarrow>
       Q (monitor_start (Monitor (name e) (fast_ma tf) (slow_ma tf) (granularity tf)))"
  shows "list_all Q (heap (start_symbols syms st))"
  using assms by (induction syms arbitrary: st) (simp_all add: start_timeframes_keeps)

lemma windows_pos_startup:
  assumes "list_all (\<lambda>e. list_all (\<lambda>tf. 1 \<le> fast_ma tf \<and> 1 \<le> slow_ma tf) (timeframes e)) (symbols c)"
  shows "windows_pos (start_all_monitors (init_state c))"
proof -
  have "list_all (\<lambda>m. running m \<longrightarrow> 1 \<le> m_fast_ma m \<and> 1 \<le> m_slow_ma m)
      (heap (start_symbols (symbols c) (init_state c)))"
    using assms
    by (intro start_symbols_keeps)
      (auto simp add: init_state_def list_all_iff Monitor_def monitor_start_def)
  then show ?thesis
    using assms by (simp add: windows_pos_def start_all_monitors_def init_state_def)
qed

lemma names_upper_startup:
  assumes "list_all (\<lambda>e. upper (name e) = name e) (symbols c)"
  shows "names_upper (start_all_monitors (init_state c))"
proof -
  have "list_all (\<lambda>m. upper (m_name m) = m_name m)
      (heap (start_symbols (symbols c) (init_state c)))"
    using assms
    by (intro start_symbols_keeps)
      (auto simp add: init_state_def list_all_iff Monitor_def monitor_start_def)
  then show ?thesis
    using assms by (simp add: names_upper_def start_all_monitors_def init_state_def)
qed

section \<open>Dispatch of a command\<close>

lemma lower_char_slash:
  assumes "lower_char x = CHR ''/''"
  shows "x = CHR ''/''"
proof (cases "65 \<le> (of_char x :: nat) \<and> (of_char x :: nat) \<le> 90")
  case True
  then have "lower_char x = char_of (of_char x + 32 :: nat)"
    unfolding lower_char_def Let_def by (rule if_P)
  moreover have "(of_char x + 32 :: nat) < 256" using True by arith
  ultimately have "(of_char (lower_char x) :: nat) = of_char x + 32"
    by (simp only: of_char_of mod_less)
  then have "(of_char (CHR ''/'') :: nat) = of_char x + 32"
    using assms by simp
  then show ?thesis using True by simp
next
  case False
  then have "lower_char x = x"
    unfolding lower_char_def Let_def by (rule if_not_P)
  then show ?thesis using assms by simp
qed

lemma lower_command:
  assumes "lower c = CHR ''/'' # w"
  shows "startswith c ''/''"
proof (cases c)
  case Nil
  then show ?thesis using assms by (simp add: lower_def)
next
  case (Cons x xs)
  then have "lower_char x = CHR ''/''" using assms by (simp add: lower_def)
  then have "x = CHR ''/''" by (rule lower_char_slash)
  then show ?thesis using Cons by (simp add: startswith_def)
qed

lemma webhook_remsymbol:
  assumes "py_str (msg_chat_id m) = py_str (chat_id (config st))"
    and "split (strip (msg_text m)) = c # rest" and "lower c = ''/remsymbol''"
  shows "telegram_webhook (Some m) st = cmd_remsymbol (c # rest) st"
proof -
  have "startswith c ''/''" using assms(3) by (intro lower_command) simp
  then have "startswith (strip (msg_text m)) ''/''"
    using split_strip_command [OF assms(2)] by simp
  then show ?thesis
    using assms by (simp add: telegram_webhook_def Let_def)
qed


section \<open>Rewriting and removing an entry of the symbol list\<close>

lemma find_symbol_Nil: "find_symbol n [] = None"
  by (simp add: find_symbol_def)

lemma find_symbol_Cons:
  "find_symbol n (s # ss) = (if name s = n then Some s else find_symbol n ss)"
  by (simp add: find_symbol_def)

lemma map_name_update_symbol:
  assumes "\<And>s. name (f s) = name s"
  shows "map name (update_symbol n f syms) = map name syms"
  using assms by (induction syms) simp_all

lemma map_name_update_const:
  assumes "name e' = n"
  shows "map name (update_symbol n (\<lambda>s. e') syms) = map name syms"
  using assms by (induction syms) auto

lemma find_symbol_update_symbol:
  assumes "find_symbol n syms = Some e" and "name (f e) = n"
  shows "find_symbol n (update_symbol n f syms) = Some (f e)"
  using assms by (induction syms) (auto simp add: find_symbol_Cons find_symbol_Nil)

lemma remove1_update_symbol:
  assumes "find_symbol n syms = Some e" and "name e' = n"
  shows "remove1 e' (update_symbol n (\<lambda>s. e') syms) = remove1 e syms"
  using assms
  by (induction syms)
    (auto simp add: find_symbol_Cons find_symbol_Nil dest: find_symbol_Some(2))

lemma remove1_map_Pair:
  "remove1 (n, x) (map (Pair n) xs) = map (Pair n) (remove1 x xs)"
  by (induction xs) auto

lemma cfg_entries_Cons:
  "cfg_entries (s # ss) = map (Pair (name s)) (timeframes s) @ cfg_entries ss"
  by (simp add: cfg_entries_def)

lemma cfg_entries_update_symbol:
  assumes "find_symbol n syms = Some e" and "tf \<in> set (timeframes e)"
  shows "cfg_entries (update_symbol n (\<lambda>s. e\<lparr>timeframes := remove1 tf (timeframes e)\<rparr>) syms)
         = remove1 (n, tf) (cfg_entries syms)"
  using assms
proof (induction syms)
  case Nil
  then show ?case by (simp add: find_symbol_def)
next
  case (Cons s ss)
  show ?case
  proof (cases "name s = n")
    case True
    then have "e = s" using Cons.prems(1) by (simp add: find_symbol_Cons)
    then show ?thesis
      using True Cons.prems(2)
      by (simp add: cfg_entries_Cons remove1_append remove1_map_Pair)
  next
    case False
    then have "find_symbol n ss = Some e" using Cons.prems(1) by (simp add: find_symbol_Cons)
    then show ?thesis
      using False Cons.IH Cons.prems(2)
      by (auto simp add: cfg_entries_Cons remove1_append)
  qed
qed

lemma cfg_entries_remove1_empty:
  assumes "timeframes e = []"
  shows "cfg_entries (remove1 e syms) = cfg_entries syms"
  using assms by (induction syms) (auto simp add: cfg_entries_Cons)

lemma remove1_last:
  assumes "tf \<in> set tfs"
  shows "remove1 tf tfs = [] \<longleftrightarrow> tfs = [tf]"
  using assms by (cases tfs) (auto split: if_splits)

lemma dict_in_dict_del: "\<not> dict_in k (dict_del k d)"
  by (auto simp add: dict_in_def dict_del_def)

lemma dict_del_other: "k' \<noteq> k \<Longrightarrow> dict_in k' (dict_del k d) = dict_in k' d"
  by (induction d) (auto simp add: dict_in_def dict_del_def)

lemma not_running_stop: "\<not> running (monitor_stop m)"
  by (simp add: running_def monitor_stop_def)

section \<open>The registry and the live workers\<close>

lemma registry_ok_iff:
  "registry_ok st \<longleftrightarrow>
     distinct (map fst (monitors st)) \<and>
     (\<forall>(k, i) \<in> set (monitors st).
        i < length (heap st) \<and> running (heap st ! i) \<and> key_of (heap st ! i) = k) \<and>
     (\<forall>i < length (heap st). running (heap st ! i) \<longrightarrow>
        map_of (monitors st) (key_of (heap st ! i)) = Some i)"
  by (auto simp add: registry_ok_def list_all_iff)

lemma registry_ok_same:
  assumes "monitors st' = monitors st" and "heap st' = heap st"
  shows "registry_ok st' = registry_ok st"
  using assms by (simp add: registry_ok_def)

text \<open>Under the agreement of registry and heap, a key has one live worker when it is
  registered and none otherwise.\<close>

lemma live_workers_count:
  assumes "registry_ok st"
  shows "length (live_workers k st) = (if dict_in k (monitors st) then 1 else 0)"
proof -
  let ?P = "\<lambda>m. running m \<and> key_of m = k"
  let ?S = "{i. i < length (heap st) \<and> ?P (heap st ! i)}"
  have len: "length (live_workers k st) = card ?S"
    by (simp add: live_workers_def length_filter_conv_card)
  from assms have dist: "distinct (map fst (monitors st))"
    and reg: "\<And>k' i. (k', i) \<in> set (monitors st) \<Longrightarrow>
        i < length (heap st) \<and> running (heap st ! i) \<and> key_of (heap st ! i) = k'"
    and bk: "\<And>i. i < length (heap st) \<Longrightarrow> running (heap st ! i) \<Longrightarrow>
        map_of (monitors st) (key_of (heap st ! i)) = Some i"
    by (auto simp add: registry_ok_iff)
  show ?thesis
  proof (cases "dict_in k (monitors st)")
    case True
    then obtain i where i: "map_of (monitors st) k = Some i"
      by (auto simp add: dict_in_map_of)
    then have "(k, i) \<in> set (monitors st)" by (rule map_of_SomeD)
    from reg [OF this] have "i \<in> ?S" by simp
    moreover have "j = i" if "j \<in> ?S" for j
      using that bk [of j] i by auto
    ultimately have "?S = {i}" by blast
    then show ?thesis using True len by simp
  next
    case False
    have "?S = {}"
    proof (rule ccontr)
      assume "?S \<noteq> {}"
      then obtain j where "j < length (heap st)" "running (heap st ! j)" "key_of (heap st ! j) = k"
        by blast
      then have "map_of (monitors st) k = Some j" using bk [of j] by simp
      then show False using False by (simp add: dict_in_map_of)
    qed
    then show ?thesis using False len by simp
  qed
qed

lemma registry_ok_start_monitor:
  assumes "registry_ok st"
  shows "registry_ok (start_monitor n f s g st)"
proof (cases "dict_in (mk_key n g) (monitors st)")
  case True
  then show ?thesis using assms by (simp add: start_monitor_def)
next
  case False
  let ?k = "mk_key n g"
  let ?m = "monitor_start (Monitor n f s g)"
  let ?st' = "start_monitor n f s g st"
  have mons: "monitors ?st' = monitors st @ [(?k, length (heap st))]"
    using False by (simp add: monitors_start_monitor)
  have hp: "heap ?st' = heap st @ [?m]"
    using False by (simp add: heap_start_monitor)
  have new: "running ?m" "key_of ?m = ?k"
    by (simp_all add: running_def key_of_def Monitor_def monitor_start_def)
  have nk: "map_of (monitors st) ?k = None"
    using False by (simp add: dict_in_map_of)
  from assms have dist: "distinct (map fst (monitors st))"
    and reg: "\<And>k' i. (k', i) \<in> set (monitors st) \<Longrightarrow>
        i < length (heap st) \<and> running (heap st ! i) \<and> key_of (heap st ! i) = k'"
    and bk: "\<And>i. i < length (heap st) \<Longrightarrow> running (heap st ! i) \<Longrightarrow>
        map_of (monitors st) (key_of (heap st ! i)) = Some i"
    by (auto simp add: registry_ok_iff)
  have d': "distinct (map fst (monitors ?st'))"
    using dist False by (simp add: mons dict_in_def)
  have r': "i < length (heap ?st') \<and> running (heap ?st' ! i) \<and> key_of (heap ?st' ! i) = k'"
    if "(k', i) \<in> set (monitors ?st')" for k' i
  proof (cases "(k', i) \<in> set (monitors st)")
    case True
    from reg [OF this] show ?thesis by (simp add: hp nth_append)
  next
    case False
    then have "k' = ?k" "i = length (heap st)" using that by (simp_all add: mons)
    then show ?thesis using new by (simp add: hp)
  qed
  have b': "map_of (monitors ?st') (key_of (heap ?st' ! i)) = Some i"
    if "i < length (heap ?st')" and "running (heap ?st' ! i)" for i
  proof (cases "i < length (heap st)")
    case True
    then have "map_of (monitors st) (key_of (heap st ! i)) = Some i"
      using that bk [of i] by (simp add: hp nth_append)
    then show ?thesis using True by (simp add: mons hp nth_append map_add_Some_iff)
  next
    case False
    then have "i = length (heap st)" using that(1) by (simp add: hp)
    then show ?thesis using new nk by (simp add: mons hp map_add_Some_iff)
  qed
  show ?thesis
    unfolding registry_ok_iff using d' r' b' by blast
qed

lemma dict_del_map_of: "k' \<noteq> k \<Longrightarrow> map_of (dict_del k d) k' = map_of d k'"
  by (induction d) (auto simp add: dict_del_def)

lemma registry_ok_stop_monitor:
  assumes "registry_ok st"
  shows "registry_ok (stop_monitor k st)"
proof (cases "map_of (monitors st) k")
  case None
  then show ?thesis using assms by (simp add: stop_monitor_def)
next
  case (Some i0)
  let ?st' = "stop_monitor k st"
  from assms have dist: "distinct (map fst (monitors st))"
    and reg: "\<And>k' i. (k', i) \<in> set (monitors st) \<Longrightarrow>
        i < length (heap st) \<and> running (heap st ! i) \<and> key_of (heap st ! i) = k'"
    and bk: "\<And>i. i < length (heap st) \<Longrightarrow> running (heap st ! i) \<Longrightarrow>
        map_of (monitors st) (key_of (heap st ! i)) = Some i"
    by (auto simp add: registry_ok_iff)
  have mons: "monitors ?st' = dict_del k (monitors st)"
    by (simp add: monitors_stop_monitor)
  have hp: "heap ?st' = (heap st)[i0 := monitor_stop (heap st ! i0)]"
    using Some by (simp add: heap_stop_monitor)
  have in0: "(k, i0) \<in> set (monitors st)" using Some by (rule map_of_SomeD)
  from reg [OF in0] have i0: "i0 < length (heap st)" "key_of (heap st ! i0) = k" by simp_all
  have d': "distinct (map fst (monitors ?st'))"
    using dist by (simp add: mons dict_del_def distinct_map_filter)
  have r': "i < length (heap ?st') \<and> running (heap ?st' ! i) \<and> key_of (heap ?st' ! i) = k'"
    if "(k', i) \<in> set (monitors ?st')" for k' i
  proof -
    have mem: "(k', i) \<in> set (monitors st)" and ne: "k' \<noteq> k"
      using that by (auto simp add: mons dict_del_def)
    from reg [OF mem] have a: "i < length (heap st)" "running (heap st ! i)" "key_of (heap st ! i) = k'"
      by simp_all
    then have "i \<noteq> i0" using i0 ne by auto
    then show ?thesis using a by (simp add: hp)
  qed
  have b': "map_of (monitors ?st') (key_of (heap ?st' ! i)) = Some i"
    if "i < length (heap ?st')" and "running (heap ?st' ! i)" for i
  proof -
    have ne: "i \<noteq> i0"
      using that i0 by (auto simp add: hp running_def monitor_stop_def)
    then have same: "heap ?st' ! i = heap st ! i" by (simp add: hp)
    have il: "i < length (heap st)" using that(1) by (simp add: hp)
    have m: "map_of (monitors st) (key_of (heap st ! i)) = Some i"
      using bk [OF il] that(2) same by simp
    have "key_of (heap st ! i) \<noteq> k"
      using m Some ne by auto
    then show ?thesis using m by (simp add: same mons dict_del_map_of)
  qed
  show ?thesis
    unfolding registry_ok_iff using d' r' b' by blast
qed

section \<open>The paths of the add command\<close>

lemma find_symbol_append_new:
  assumes "find_symbol n syms = None"
  shows "find_symbol n (syms @ [e]) = (if name e = n then Some e else None)"
  using assms by (induction syms) (auto simp add: find_symbol_Cons find_symbol_Nil split: if_splits)

text \<open>The timeframe exists: the message that says so is sent, nothing else changes.\<close>

lemma cmd_addsymbol_duplicate:
  assumes "length parts = 5" and "py_int (parts ! 2) = Some f" and "py_int (parts ! 3) = Some s"
    and "py_int (parts ! 4) = Some g"
    and "find_symbol (upper (parts ! 1)) (symbols (config st)) = Some e"
    and "list_ex (\<lambda>tf. granularity tf = g) (timeframes e)"
  shows "cmd_addsymbol parts st =
     send_telegram (upper (parts ! 1) @ '' already has timeframe '' @ str_int g @ ''s'') st"
  using assms by (simp add: cmd_addsymbol_def Let_def)

text \<open>The timeframe is new: it is appended to the entry of the symbol, which is made
  when there is none, and the monitor is started.\<close>

lemma cmd_addsymbol_fresh:
  assumes "length parts = 5" and "py_int (parts ! 2) = Some f" and "py_int (parts ! 3) = Some s"
    and "py_int (parts ! 4) = Some g"
    and "\<not> (\<exists>e. find_symbol (upper (parts ! 1)) (symbols (config st)) = Some e \<and>
            list_ex (\<lambda>tf. granularity tf = g) (timeframes e))"
  shows "symbols (config (cmd_addsymbol parts st)) =
           update_symbol (upper (parts ! 1))
             (\<lambda>e. e\<lparr>timeframes := timeframes e @ [\<lparr>fast_ma = f, slow_ma = s, granularity = g\<rparr>]\<rparr>)
             (case find_symbol (upper (parts ! 1)) (symbols (config st)) of
                None \<Rightarrow> symbols (config st) @ [\<lparr>name = upper (parts ! 1), timeframes = []\<rparr>]
              | Some e \<Rightarrow> symbols (config st))"
    and "chat_id (config (cmd_addsymbol parts st)) = chat_id (config st)"
    and "bot_token (config (cmd_addsymbol parts st)) = bot_token (config st)"
    and "monitors (cmd_addsymbol parts st) = monitors (start_monitor (upper (parts ! 1)) f s g st)"
    and "heap (cmd_addsymbol parts st) = heap (start_monitor (upper (parts ! 1)) f s g st)"
    and "saved (cmd_addsymbol parts st) = saved st @ [document (cmd_addsymbol parts st)]"
    and "sent (cmd_addsymbol parts st) =
           sent st @ [''Added '' @ upper (parts ! 1) @ '' '' @ str_int g @
                      ''s with fast MA='' @ str_int f @ '' slow MA='' @ str_int s]"
  using assms
  by (auto simp add: cmd_addsymbol_def Let_def find_symbol_append_new
        monitors_start_monitor heap_start_monitor split: option.splits)


lemma dict_in_start_monitor: "dict_in (mk_key n g) (monitors (start_monitor n f s g st))"
  by (simp add: monitors_start_monitor dict_in_def)

lemma dict_in_start_monitor_mono:
  "dict_in k (monitors st) \<Longrightarrow> dict_in k (monitors (start_monitor n f s g st))"
  by (simp add: monitors_start_monitor dict_in_def)



section \<open>Starting all monitors twice\<close>

lemma start_timeframes_mono:
  "dict_in k (monitors st) \<Longrightarrow> dict_in k (monitors (start_timeframes n tfs st))"
  by (induction tfs arbitrary: st) (simp_all add: dict_in_start_monitor_mono)

lemma start_symbols_mono:
  "dict_in k (monitors st) \<Longrightarrow> dict_in k (monitors (start_symbols syms st))"
  by (induction syms arbitrary: st) (simp_all add: start_timeframes_mono)

lemma start_timeframes_covers:
  "tf \<in> set tfs \<Longrightarrow> dict_in (mk_key n (granularity tf)) (monitors (start_timeframes n tfs st))"
  by (induction tfs arbitrary: st) (auto simp add: start_timeframes_mono dict_in_start_monitor)

lemma start_symbols_covers:
  "e \<in> set syms \<Longrightarrow> tf \<in> set (timeframes e) \<Longrightarrow>
   dict_in (mk_key (name e) (granularity tf)) (monitors (start_symbols syms st))"
  by (induction syms arbitrary: st) (auto simp add: start_symbols_mono start_timeframes_covers)



lemma config_started_start_all: "config_started (start_all_monitors st)"
  by (auto simp add: config_started_def start_all_monitors_def list_all_iff start_symbols_covers)


lemma registry_ok_start_timeframes:
  "registry_ok st \<Longrightarrow> registry_ok (start_timeframes n tfs st)"
  by (induction tfs arbitrary: st) (simp_all add: registry_ok_start_monitor)

lemma registry_ok_start_symbols:
  "registry_ok st \<Longrightarrow> registry_ok (start_symbols syms st)"
  by (induction syms arbitrary: st) (simp_all add: registry_ok_start_timeframes)

lemma registry_ok_startup: "registry_ok (start_all_monitors (init_state c))"
  unfolding start_all_monitors_def
  by (rule registry_ok_start_symbols) (simp add: registry_ok_def init_state_def)

section \<open>The add command, twice\<close>


lemma cmd_addsymbol_registry_ok:
  assumes "registry_ok st"
  shows "registry_ok (cmd_addsymbol parts st)"
proof -
  have "monitors (cmd_addsymbol parts st) = monitors st \<and> heap (cmd_addsymbol parts st) = heap st \<or>
    (\<exists>n f s g. monitors (cmd_addsymbol parts st) = monitors (start_monitor n f s g st) \<and>
       heap (cmd_addsymbol parts st) = heap (start_monitor n f s g st))"
    by (auto simp add: cmd_addsymbol_def Let_def monitors_start_monitor heap_start_monitor
          split: option.splits)
  then show ?thesis
    using assms registry_ok_start_monitor [OF assms] registry_ok_same by metis
qed


section \<open>The key determines the symbol and the granularity\<close>

lemma digit_val_digit_char:
  assumes "n < 10"
  shows "digit_val (digit_char n) = n"
proof -
  have "48 + n < 256" using assms by simp
  then have "(of_char (char_of (48 + n)) :: nat) = 48 + n"
    by (simp only: of_char_of mod_less)
  then show ?thesis by (simp add: digit_val_def digit_char_def)
qed

lemma digit_char_plain:
  assumes "n < 10"
  shows "digit_char n \<noteq> CHR ''_''" and "digit_char n \<noteq> CHR ''-''"
proof -
  have "48 + n < 256" using assms by simp
  then have v: "(of_char (digit_char n) :: nat) = 48 + n"
    unfolding digit_char_def by (simp only: of_char_of mod_less)
  show "digit_char n \<noteq> CHR ''_''"
  proof
    assume "digit_char n = CHR ''_''"
    then have "(of_char (CHR ''_'') :: nat) = 48 + n" using v by simp
    then show False using assms by simp
  qed
  show "digit_char n \<noteq> CHR ''-''"
  proof
    assume "digit_char n = CHR ''-''"
    then have "(of_char (CHR ''-'') :: nat) = 48 + n" using v by simp
    then show False using assms by simp
  qed
qed

lemma str_nat_plain: "CHR ''_'' \<notin> set (str_nat n) \<and> CHR ''-'' \<notin> set (str_nat n)"
proof (induction n rule: str_nat.induct)
  case (1 n)
  show ?case
  proof (cases "n < 10")
    case True
    then show ?thesis
      using digit_char_plain [of n] by (subst (1 2) str_nat.simps) auto
  next
    case False
    have "n mod 10 < 10" by simp
    then show ?thesis
      using False 1 digit_char_plain [of "n mod 10"] by (subst (1 2) str_nat.simps) auto
  qed
qed

lemma str_nat_not_Nil: "str_nat n \<noteq> []"
  by (subst str_nat.simps) simp

lemma dec_str_nat: "foldl (\<lambda>a c. 10 * a + digit_val c) 0 (str_nat n) = n"
proof (induction n rule: str_nat.induct)
  case (1 n)
  show ?case
  proof (cases "n < 10")
    case True
    then show ?thesis
      by (subst str_nat.simps) (simp add: digit_val_digit_char)
  next
    case False
    have "n mod 10 < 10" by simp
    then show ?thesis
      using False 1 by (subst str_nat.simps) (simp add: digit_val_digit_char)
  qed
qed

lemma str_nat_inj: "str_nat m = str_nat n \<Longrightarrow> m = n"
  by (metis dec_str_nat)

lemma str_int_inj:
  assumes "str_int i = str_int j"
  shows "i = j"
proof -
  have hd_nat: "hd (str_nat n) \<noteq> CHR ''-''" for n
    using str_nat_plain [of n] str_nat_not_Nil [of n] by (cases "str_nat n") auto
  have sign: "(i < 0) = (j < 0)"
  proof (rule ccontr)
    assume "(i < 0) \<noteq> (j < 0)"
    then consider "i < 0" "\<not> j < 0" | "\<not> i < 0" "j < 0" by blast
    then show False
    proof cases
      case 1
      then have "CHR ''-'' # str_nat (nat (- i)) = str_nat (nat j)"
        using assms by (simp add: str_int_def)
      then show False using hd_nat [of "nat j"] by (metis list.sel(1))
    next
      case 2
      then have "str_nat (nat i) = CHR ''-'' # str_nat (nat (- j))"
        using assms by (simp add: str_int_def)
      then show False using hd_nat [of "nat i"] by (metis list.sel(1))
    qed
  qed
  show ?thesis
  proof (cases "i < 0")
    case True
    then have "str_nat (nat (- i)) = str_nat (nat (- j))"
      using assms sign by (simp add: str_int_def)
    then have "nat (- i) = nat (- j)" by (rule str_nat_inj)
    then show ?thesis using True sign by simp
  next
    case False
    then have "str_nat (nat i) = str_nat (nat j)"
      using assms sign by (simp add: str_int_def)
    then have "nat i = nat j" by (rule str_nat_inj)
    then show ?thesis using False sign by simp
  qed
qed

lemma str_int_no_underscore: "CHR ''_'' \<notin> set (str_int i)"
  using str_nat_plain by (simp add: str_int_def)

lemma split_at_first:
  assumes "x \<notin> set xs" and "x \<notin> set xs'" and "xs @ x # ys = xs' @ x # ys'"
  shows "xs = xs' \<and> ys = ys'"
  using assms
proof (induction xs arbitrary: xs')
  case Nil
  then show ?case by (cases xs') auto
next
  case (Cons a t)
  then show ?case by (cases xs') auto
qed

lemma mk_key_inj:
  assumes "mk_key n g = mk_key n' g'"
  shows "n = n'" and "g = g'"
proof -
  have eq: "rev (str_int g) @ CHR ''_'' # rev n = rev (str_int g') @ CHR ''_'' # rev n'"
    using arg_cong [OF assms, of rev] by (simp add: mk_key_def)
  have a: "CHR ''_'' \<notin> set (rev (str_int g))" and b: "CHR ''_'' \<notin> set (rev (str_int g'))"
    using str_int_no_underscore by simp_all
  from split_at_first [OF a b eq]
  have "str_int g = str_int g'" and "n = n'" by simp_all
  then show "n = n'" and "g = g'"
    using str_int_inj by simp_all
qed

section \<open>The configured timeframes\<close>

lemma cfg_entries_Nil: "cfg_entries [] = []"
  by (simp add: cfg_entries_def)

lemma cfg_entries_append: "cfg_entries (xs @ ys) = cfg_entries xs @ cfg_entries ys"
  by (simp add: cfg_entries_def)

lemma set_cfg_entries:
  "set (cfg_entries syms) = {(name e, tf) | e tf. e \<in> set syms \<and> tf \<in> set (timeframes e)}"
  by (auto simp add: cfg_entries_def)

lemma config_started_iff:
  "config_started st \<longleftrightarrow>
     (\<forall>x \<in> set (cfg_entries (symbols (config st))). dict_in (entry_key x) (monitors st))"
  by (auto simp add: config_started_def list_all_iff set_cfg_entries entry_key_def)

lemma registry_configured_iff:
  "registry_configured st \<longleftrightarrow>
     (\<forall>k. dict_in k (monitors st) \<longrightarrow>
        k \<in> entry_key ` set (cfg_entries (symbols (config st))))"
  by (auto simp add: registry_configured_def list_all_iff dict_in_def)

text \<open>With distinct names and distinct granularities, no two configured timeframes
  have the same key.\<close>

lemma entry_key_inj: "entry_key x = entry_key y \<Longrightarrow> fst x = fst y \<and> granularity (snd x) = granularity (snd y)"
  using mk_key_inj [of "fst x" "granularity (snd x)" "fst y" "granularity (snd y)"]
  by (simp add: entry_key_def)

lemma distinct_entry_keys:
  assumes "config_distinct syms"
  shows "distinct (map entry_key (cfg_entries syms))"
  using assms
proof (induction syms)
  case Nil
  then show ?case by (simp add: cfg_entries_Nil)
next
  case (Cons s ss)
  from Cons.prems have names: "name s \<notin> set (map name ss)"
    and grans: "distinct (map granularity (timeframes s))"
    and rest: "config_distinct ss"
    by (simp_all add: config_distinct_def)
  have here: "distinct (map entry_key (map (Pair (name s)) (timeframes s)))"
  proof -
    have "inj_on (\<lambda>tf. entry_key (name s, tf)) (set (timeframes s))"
    proof (rule inj_onI)
      fix a b assume a: "a \<in> set (timeframes s)" and b: "b \<in> set (timeframes s)"
        and eq: "entry_key (name s, a) = entry_key (name s, b)"
      from entry_key_inj [OF eq] have "granularity a = granularity b" by simp
      then show "a = b"
        using grans a b by (meson distinct_map inj_onD)
    qed
    moreover have "distinct (timeframes s)" using grans by (simp add: distinct_map)
    ultimately show ?thesis by (simp add: distinct_map comp_def)
  qed
  have apart: "entry_key (name s, tf) \<noteq> entry_key y"
    if "y \<in> set (cfg_entries ss)" for tf y
  proof
    assume "entry_key (name s, tf) = entry_key y"
    from entry_key_inj [OF this] have "fst y = name s" by simp
    moreover have "fst y \<in> set (map name ss)"
      using that by (auto simp add: set_cfg_entries)
    ultimately show False using names by simp
  qed
  show ?case
    using here Cons.IH [OF rest] apart
    by (auto simp add: cfg_entries_Cons)
qed

lemma other_entry_other_key:
  assumes "config_distinct syms" and "y \<in> set (remove1 x (cfg_entries syms))"
    and "x \<in> set (cfg_entries syms)"
  shows "entry_key y \<noteq> entry_key x"
proof -
  have d: "distinct (map entry_key (cfg_entries syms))"
    using assms(1) by (rule distinct_entry_keys)
  then have dl: "distinct (cfg_entries syms)" by (simp add: distinct_map)
  then have "y \<noteq> x" "y \<in> set (cfg_entries syms)"
    using assms(2) by simp_all
  then show ?thesis
    using d assms(3) by (meson distinct_map inj_onD)
qed

section \<open>Distinct names and granularities are kept\<close>

lemma distinct_map_remove1:
  "distinct (map h xs) \<Longrightarrow> distinct (map h (remove1 x xs))"
proof (induction xs)
  case Nil
  then show ?case by simp
next
  case (Cons a xs)
  have "set (remove1 x xs) \<subseteq> set xs" by (rule set_remove1_subset)
  then show ?case using Cons by auto
qed

lemma set_update_symbol_found:
  assumes "find_symbol n syms = Some e" and "distinct (map name syms)"
  shows "set (update_symbol n f syms) = insert (f e) (set syms - {e})"
  using assms
proof (induction syms)
  case Nil
  then show ?case by (simp add: find_symbol_Nil)
next
  case (Cons s ss)
  show ?case
  proof (cases "name s = n")
    case True
    then have "e = s" using Cons.prems(1) by (simp add: find_symbol_Cons)
    moreover have "s \<notin> set ss" using Cons.prems(2) by auto
    ultimately show ?thesis using True by auto
  next
    case False
    then have f: "find_symbol n ss = Some e" using Cons.prems(1) by (simp add: find_symbol_Cons)
    then have "name e = n" by (rule find_symbol_Some(2))
    then have "s \<noteq> e" using False by auto
    then show ?thesis
      using False Cons.IH [OF f] Cons.prems(2) by auto
  qed
qed

lemma config_distinct_update:
  assumes cd: "config_distinct syms" and f: "find_symbol n syms = Some e"
    and nm: "\<And>x. name (F x) = name x"
    and gr: "distinct (map granularity (timeframes (F e)))"
  shows "config_distinct (update_symbol n F syms)"
proof -
  have names: "distinct (map name (update_symbol n F syms))"
    using cd nm by (simp add: map_name_update_symbol config_distinct_def)
  have "set (update_symbol n F syms) = insert (F e) (set syms - {e})"
    using f cd by (intro set_update_symbol_found) (simp_all add: config_distinct_def)
  then have "list_all (\<lambda>e. distinct (map granularity (timeframes e))) (update_symbol n F syms)"
    using cd gr by (auto simp add: list_all_iff config_distinct_def)
  then show ?thesis using names by (simp add: config_distinct_def)
qed

lemma config_distinct_remove1:
  assumes "config_distinct syms"
  shows "config_distinct (remove1 x syms)"
proof -
  have "set (remove1 x syms) \<subseteq> set syms" by (rule set_remove1_subset)
  then show ?thesis
    using assms by (auto simp add: config_distinct_def list_all_iff distinct_map_remove1)
qed

lemma cfg_entries_add:
  assumes "find_symbol n syms = Some e"
  shows "set (cfg_entries (update_symbol n (\<lambda>e. e\<lparr>timeframes := timeframes e @ [tf]\<rparr>) syms))
         = insert (n, tf) (set (cfg_entries syms))"
  using assms
  by (induction syms) (auto simp add: find_symbol_Nil find_symbol_Cons cfg_entries_Cons)

section \<open>The commands keep the registry and the configuration consistent\<close>

lemma consistent_same:
  assumes "symbols (config st') = symbols (config st)" and "monitors st' = monitors st"
    and "heap st' = heap st"
  shows "consistent st' = consistent st"
  using assms
  by (simp add: consistent_def registry_ok_def config_started_def registry_configured_def)

lemma cmd_addsymbol_cases:
  "(\<exists>t. cmd_addsymbol parts st = send_telegram t st) \<or>
   (\<exists>f s g. length parts = 5 \<and> py_int (parts ! 2) = Some f \<and> py_int (parts ! 3) = Some s \<and>
      py_int (parts ! 4) = Some g \<and>
      \<not> (\<exists>e. find_symbol (upper (parts ! 1)) (symbols (config st)) = Some e \<and>
            list_ex (\<lambda>tf. granularity tf = g) (timeframes e)))"
proof (cases "length parts = 5 \<and> py_int (parts ! 2) \<noteq> None \<and> py_int (parts ! 3) \<noteq> None \<and>
    py_int (parts ! 4) \<noteq> None")
  case False
  then show ?thesis
    by (auto simp add: cmd_addsymbol_def Let_def split: option.splits)
next
  case True
  then obtain f s g where args: "length parts = 5" "py_int (parts ! 2) = Some f"
      "py_int (parts ! 3) = Some s" "py_int (parts ! 4) = Some g"
    by auto
  show ?thesis
  proof (cases "\<exists>e. find_symbol (upper (parts ! 1)) (symbols (config st)) = Some e \<and>
            list_ex (\<lambda>tf. granularity tf = g) (timeframes e)")
    case True
    then obtain e where e: "find_symbol (upper (parts ! 1)) (symbols (config st)) = Some e"
        "list_ex (\<lambda>tf. granularity tf = g) (timeframes e)" by blast
    show ?thesis using cmd_addsymbol_duplicate [OF args e] by blast
  next
    case False
    then show ?thesis using args by blast
  qed
qed

lemma cmd_addsymbol_paths:
  obtains (sent) t where "cmd_addsymbol parts st = send_telegram t st"
  | (fresh) f s g where "length parts = 5" and "py_int (parts ! 2) = Some f"
      and "py_int (parts ! 3) = Some s" and "py_int (parts ! 4) = Some g"
      and "\<not> (\<exists>e. find_symbol (upper (parts ! 1)) (symbols (config st)) = Some e \<and>
            list_ex (\<lambda>tf. granularity tf = g) (timeframes e))"
  using cmd_addsymbol_cases [of parts st] by blast

lemma consistent_addsymbol:
  assumes "consistent st"
  shows "consistent (cmd_addsymbol parts st)"
proof (cases rule: cmd_addsymbol_paths [of parts st])
  case (sent t)
  then show ?thesis using assms consistent_same [of "send_telegram t st" st] by simp
next
  case (fresh f s g)
  note args = fresh(1-4)
  let ?n = "upper (parts ! 1)"
  let ?tf = "\<lparr>fast_ma = f, slow_ma = s, granularity = g\<rparr>"
  let ?F = "\<lambda>e. e\<lparr>timeframes := timeframes e @ [?tf]\<rparr>"
  let ?syms = "symbols (config st)"
  let ?syms1 = "(case find_symbol ?n ?syms of
              None \<Rightarrow> ?syms @ [\<lparr>name = ?n, timeframes = []\<rparr>]
            | Some e \<Rightarrow> ?syms)"
  let ?st' = "cmd_addsymbol parts st"
  note res = cmd_addsymbol_fresh [OF args fresh(5)]
  from assms have ok: "registry_ok st" and started: "config_started st"
    and conf: "registry_configured st" and cd: "config_distinct ?syms"
    by (simp_all add: consistent_def)
  obtain e0 where e0: "find_symbol ?n ?syms1 = Some e0"
    and g0: "g \<notin> set (map granularity (timeframes e0))"
    and cd1: "config_distinct ?syms1"
    and en1: "cfg_entries ?syms1 = cfg_entries ?syms"
  proof (cases "find_symbol ?n ?syms")
    case None
    then have "?n \<notin> set (map name ?syms)" by (simp add: find_symbol_None)
    then have "config_distinct (?syms @ [\<lparr>name = ?n, timeframes = []\<rparr>])"
      using cd by (simp add: config_distinct_def)
    then show ?thesis
      using None that [of "\<lparr>name = ?n, timeframes = []\<rparr>"]
      by (simp add: find_symbol_append_new cfg_entries_append cfg_entries_def)
  next
    case (Some e)
    then have "\<not> list_ex (\<lambda>tf. granularity tf = g) (timeframes e)" using fresh(5) by simp
    then have "g \<notin> set (map granularity (timeframes e))" by (auto simp add: list_ex_iff)
    then show ?thesis using Some cd that [of e] by simp
  qed
  have cd': "config_distinct (symbols (config ?st'))"
    unfolding res(1) using cd1 e0
  proof (rule config_distinct_update)
    show "distinct (map granularity (timeframes (?F e0)))"
      using g0 cd1 find_symbol_Some(1) [OF e0]
      by (auto simp add: config_distinct_def list_all_iff)
  qed simp
  have ent: "set (cfg_entries (symbols (config ?st'))) = insert (?n, ?tf) (set (cfg_entries ?syms))"
    unfolding res(1) using cfg_entries_add [OF e0, of ?tf] en1 by simp
  have key: "entry_key (?n, ?tf) = mk_key ?n g" by (simp add: entry_key_def)
  have started': "config_started ?st'"
    unfolding config_started_iff ent res(4)
    using started key dict_in_start_monitor [of ?n g f s st]
    by (auto simp add: config_started_iff dict_in_start_monitor_mono)
  have conf': "registry_configured ?st'"
    unfolding registry_configured_iff ent res(4)
    using conf key
    by (auto simp add: registry_configured_iff monitors_start_monitor dict_in_def
          split: if_splits)
  have ok': "registry_ok ?st'"
    using ok by (rule cmd_addsymbol_registry_ok)
  show ?thesis
    using ok' started' conf' cd' by (simp add: consistent_def)
qed

lemma cmd_remsymbol_paths:
  obtains (sent) t where "cmd_remsymbol parts st = send_telegram t st"
  | (found) g e tf where "length parts = 3" and "py_int (parts ! 2) = Some g"
      and "find_symbol (upper (parts ! 1)) (symbols (config st)) = Some e"
      and "find_timeframe g (timeframes e) = Some tf"
proof (cases "\<exists>g e tf. length parts = 3 \<and> py_int (parts ! 2) = Some g \<and>
    find_symbol (upper (parts ! 1)) (symbols (config st)) = Some e \<and>
    find_timeframe g (timeframes e) = Some tf")
  case True
  then show ?thesis using found by blast
next
  case False
  then have "\<exists>t. cmd_remsymbol parts st = send_telegram t st"
    by (intro cmd_remsymbol_not_found) (metis option.exhaust)
  then show ?thesis using sent by blast
qed

lemma cmd_remsymbol_entries:
  assumes "find_symbol n syms = Some e" and "find_timeframe g (timeframes e) = Some tf"
    and "e' = e\<lparr>timeframes := remove1 tf (timeframes e)\<rparr>"
  shows "cfg_entries (if timeframes e' = [] then remove1 e' (update_symbol n (\<lambda>s. e') syms)
                      else update_symbol n (\<lambda>s. e') syms)
         = remove1 (n, tf) (cfg_entries syms)"
proof -
  have "cfg_entries (update_symbol n (\<lambda>s. e') syms) = remove1 (n, tf) (cfg_entries syms)"
    unfolding assms(3)
    using assms(1) find_timeframe_Some(1) [OF assms(2)] by (rule cfg_entries_update_symbol)
  then show ?thesis by (simp add: cfg_entries_remove1_empty)
qed

lemma config_distinct_remsymbol:
  assumes "config_distinct syms" and "find_symbol n syms = Some e"
    and "e' = e\<lparr>timeframes := remove1 tf (timeframes e)\<rparr>"
  shows "config_distinct (if timeframes e' = [] then remove1 e' (update_symbol n (\<lambda>s. e') syms)
                          else update_symbol n (\<lambda>s. e') syms)"
proof -
  have ne: "name e = n" using find_symbol_Some(2) [OF assms(2)] .
  have "distinct (map granularity (timeframes e))"
    using assms(1) find_symbol_Some(1) [OF assms(2)]
    by (auto simp add: config_distinct_def list_all_iff)
  then have g: "distinct (map granularity (timeframes e'))"
    by (simp add: assms(3) distinct_map_remove1)
  have names: "map name (update_symbol n (\<lambda>s. e') syms) = map name syms"
    using ne by (intro map_name_update_const) (simp add: assms(3))
  have "set (update_symbol n (\<lambda>s. e') syms) \<subseteq> set syms \<union> {e'}"
    using set_update_symbol [of n "\<lambda>s. e'" syms] by auto
  then have "config_distinct (update_symbol n (\<lambda>s. e') syms)"
    using assms(1) g names by (auto simp add: config_distinct_def list_all_iff)
  then show ?thesis by (simp add: config_distinct_remove1)
qed

lemma consistent_remsymbol:
  assumes "consistent st"
  shows "consistent (cmd_remsymbol parts st)"
proof (cases rule: cmd_remsymbol_paths [of parts st])
  case (sent t)
  then show ?thesis using assms consistent_same [of "send_telegram t st" st] by simp
next
  case (found g e tf)
  let ?n = "upper (parts ! 1)"
  let ?syms = "symbols (config st)"
  let ?st' = "cmd_remsymbol parts st"
  let ?k = "mk_key ?n g"
  define e' where "e' = e\<lparr>timeframes := remove1 tf (timeframes e)\<rparr>"
  note res = cmd_remsymbol_found [OF found e'_def]
  from assms have ok: "registry_ok st" and started: "config_started st"
    and conf: "registry_configured st" and cd: "config_distinct ?syms"
    by (simp_all add: consistent_def)
  have tfg: "granularity tf = g" using find_timeframe_Some(2) [OF found(4)] .
  have key: "entry_key (?n, tf) = ?k" using tfg by (simp add: entry_key_def)
  have mem: "(?n, tf) \<in> set (cfg_entries ?syms)"
    using find_symbol_Some [OF found(3)] find_timeframe_Some(1) [OF found(4)]
    by (force simp add: set_cfg_entries)
  have ent: "cfg_entries (symbols (config ?st')) = remove1 (?n, tf) (cfg_entries ?syms)"
    unfolding res(1) using found(3,4) e'_def by (rule cmd_remsymbol_entries)
  have cd': "config_distinct (symbols (config ?st'))"
    unfolding res(1) using cd found(3) e'_def by (rule config_distinct_remsymbol)
  have ok': "registry_ok ?st'"
  proof -
    have "monitors ?st' = monitors (stop_monitor ?k st)" "heap ?st' = heap (stop_monitor ?k st)"
      by (simp_all add: res(4,5) monitors_stop_monitor heap_stop_monitor)
    then show ?thesis
      using registry_ok_stop_monitor [OF ok, of ?k] registry_ok_same by blast
  qed
  have started': "config_started ?st'"
    unfolding config_started_iff
  proof
    fix x assume x: "x \<in> set (cfg_entries (symbols (config ?st')))"
    then have x1: "x \<in> set (remove1 (?n, tf) (cfg_entries ?syms))" by (simp add: ent)
    then have "x \<in> set (cfg_entries ?syms)"
      using set_remove1_subset [of "(?n, tf)" "cfg_entries ?syms"] by blast
    then have "dict_in (entry_key x) (monitors st)"
      using started by (simp add: config_started_iff)
    moreover have "entry_key x \<noteq> ?k"
      using other_entry_other_key [OF cd x1 mem] key by simp
    ultimately show "dict_in (entry_key x) (monitors ?st')"
      by (simp add: res(4) dict_del_other)
  qed
  have conf': "registry_configured ?st'"
    unfolding registry_configured_iff
  proof (intro allI impI)
    fix k assume "dict_in k (monitors ?st')"
    then have k: "dict_in k (dict_del ?k (monitors st))" by (simp add: res(4))
    then have ne: "k \<noteq> ?k" using dict_in_dict_del [of ?k "monitors st"] by auto
    then have "dict_in k (monitors st)" using k by (simp add: dict_del_other)
    then obtain x where x: "x \<in> set (cfg_entries ?syms)" "entry_key x = k"
      using conf by (auto simp add: registry_configured_iff)
    then have "x \<noteq> (?n, tf)" using ne key by auto
    then have "x \<in> set (remove1 (?n, tf) (cfg_entries ?syms))" using x(1) by simp
    then show "k \<in> entry_key ` set (cfg_entries (symbols (config ?st')))"
      using x(2) by (auto simp add: ent)
  qed
  show ?thesis
    using ok' started' conf' cd' by (simp add: consistent_def)
qed

section \<open>Every state that is reached is consistent\<close>

lemma start_timeframes_keys:
  assumes "dict_in k (monitors (start_timeframes n tfs st))"
  shows "dict_in k (monitors st) \<or> k \<in> (\<lambda>tf. mk_key n (granularity tf)) ` set tfs"
  using assms
proof (induction tfs arbitrary: st)
  case Nil
  then show ?case by simp
next
  case (Cons tf tfs)
  from Cons.IH [OF Cons.prems [simplified]]
  show ?case
    by (auto simp add: monitors_start_monitor dict_in_def split: if_splits)
qed

lemma start_symbols_keys:
  assumes "dict_in k (monitors (start_symbols syms st))"
  shows "dict_in k (monitors st) \<or> k \<in> entry_key ` set (cfg_entries syms)"
  using assms
proof (induction syms arbitrary: st)
  case Nil
  then show ?case by simp
next
  case (Cons e syms)
  from Cons.IH [OF Cons.prems [simplified]]
  have "dict_in k (monitors (start_timeframes (name e) (timeframes e) st)) \<or>
      k \<in> entry_key ` set (cfg_entries syms)" .
  moreover have "k \<in> entry_key ` set (cfg_entries (e # syms))"
    if "k \<in> (\<lambda>tf. mk_key (name e) (granularity tf)) ` set (timeframes e)"
    using that by (force simp add: cfg_entries_Cons entry_key_def)
  moreover have "k \<in> entry_key ` set (cfg_entries (e # syms))"
    if "k \<in> entry_key ` set (cfg_entries syms)"
    using that by (auto simp add: cfg_entries_Cons)
  ultimately show ?case
    using start_timeframes_keys [of k "name e" "timeframes e" st] by blast
qed

lemma consistent_startup:
  assumes "config_distinct (symbols c)"
  shows "consistent (start_all_monitors (init_state c))"
proof -
  let ?st = "start_all_monitors (init_state c)"
  have cfg: "symbols (config ?st) = symbols c"
    by (simp add: start_all_monitors_def init_state_def)
  have "registry_configured ?st"
    unfolding registry_configured_iff cfg
    using start_symbols_keys [of _ "symbols c" "init_state c"]
    by (auto simp add: start_all_monitors_def init_state_def dict_in_def)
  then show ?thesis
    using assms registry_ok_startup [of c] config_started_start_all [of "init_state c"]
    by (simp add: consistent_def cfg)
qed

lemma consistent_step:
  assumes "consistent st"
  shows "consistent (telegram_webhook d st)"
proof (cases d)
  case None
  then show ?thesis using assms by (simp add: telegram_webhook_def)
next
  case (Some m)
  have snd: "consistent (send_telegram t st)" for t
    using assms consistent_same [of "send_telegram t st" st] by simp
  have other: "consistent (cmd_listsymbols st)" "consistent (cmd_status st)"
    using snd by (simp_all add: cmd_listsymbols_def cmd_status_def Let_def)
  show ?thesis
    using Some assms snd other consistent_addsymbol [OF assms] consistent_remsymbol [OF assms]
    by (simp add: telegram_webhook_def Let_def)
qed

lemma consistent_run:
  assumes "consistent st"
  shows "consistent (run_webhook ds st)"
  using assms by (induction ds arbitrary: st) (simp_all add: consistent_step)

text \<open>In a consistent state a key has one live worker when a configured timeframe has
  it, and none otherwise.\<close>

lemma consistent_one_worker:
  assumes "consistent st"
  shows "length (live_workers k st) =
     (if k \<in> entry_key ` set (cfg_entries (symbols (config st))) then 1 else 0)"
proof -
  from assms have ok: "registry_ok st" and started: "config_started st"
    and conf: "registry_configured st"
    by (simp_all add: consistent_def)
  have "dict_in k (monitors st) \<longleftrightarrow> k \<in> entry_key ` set (cfg_entries (symbols (config st)))"
    using started conf by (auto simp add: config_started_iff registry_configured_iff)
  then show ?thesis
    using live_workers_count [OF ok, of k] by simp
qed

lemma reachable_one_worker:
  assumes "config_distinct (symbols c)"
    and "st = run_webhook ds (start_all_monitors (init_state c))"
  shows "consistent st"
    and "length (live_workers k st) =
     (if k \<in> entry_key ` set (cfg_entries (symbols (config st))) then 1 else 0)"
proof -
  show c: "consistent st"
    using assms by (simp add: consistent_run consistent_startup)
  show "length (live_workers k st) =
     (if k \<in> entry_key ` set (cfg_entries (symbols (config st))) then 1 else 0)"
    using c by (rule consistent_one_worker)
qed

text \<open>A start from a document with no \<^verbatim>\<open>symbols\<close> entry has nothing to start, and
  what it reaches is consistent too.\<close>

lemma startup_no_symbols:
  "start_all_monitors (init_state_no_symbols t c) = init_state_no_symbols t c"
  by (simp add: start_all_monitors_def init_state_no_symbols_def)

lemma consistent_no_symbols: "consistent (init_state_no_symbols t c)"
  by (simp add: consistent_def registry_ok_def config_started_def registry_configured_def
        config_distinct_def init_state_no_symbols_def)

lemma reachable_no_symbols:
  assumes "st = run_webhook ds (start_all_monitors (init_state_no_symbols t c))"
  shows "consistent st"
  using assms by (simp add: startup_no_symbols consistent_run consistent_no_symbols)

section \<open>The claims about the detector\<close>



text \<open>
  Claim C2, as the code has it. On the closes 5, 4, 6 with the windows 1 and 2 the
  four means are 4, 4.5, 6 and 5 as the claim computes them, but three closes are
  fewer than \<open>2 + 2\<close>, so the detector returns NoSignal; with any closes before
  them it returns BullishCross.
\<close>

theorem check_crossover_scenario:
  "check_crossover [5, 4, 6] 1 2 = NoSignal \<and>
   spec_ma 1 (butlast [5, 4, 6]) = Some 4 \<and> spec_ma 2 (butlast [5, 4, 6]) = Some (9 / 2) \<and>
   spec_ma 1 [5, 4, 6] = Some 6 \<and> spec_ma 2 [5, 4, 6] = Some 5 \<and>
   (\<forall>pre. pre \<noteq> [] \<longrightarrow> check_crossover (pre @ [5, 4, 6]) 1 2 = BullishCross)"
proof -
  have short: "check_crossover [5, 4, 6] 1 2 = NoSignal"
    by (simp add: check_crossover_def)
  have means: "spec_ma 1 (butlast [5, 4, 6]) = Some 4 \<and>
     spec_ma 2 (butlast [5, 4, 6]) = Some (9 / 2) \<and>
     spec_ma 1 [5, 4, 6] = Some 6 \<and> spec_ma 2 [5, 4, 6] = Some 5"
    by (simp add: spec_ma_def spec_last_def np_mean_def)
  have long: "check_crossover (pre @ [5, 4, 6]) 1 2 = BullishCross"
    if "pre \<noteq> []" for pre :: "rat list"
  proof -
    have len: "(2::int) + 2 \<le> int (length (pre @ [5, 4, 6]))"
      using that by (cases pre) simp_all
    have "spec_bullish (pre @ [5, 4, 6]) 1 2"
      by (simp add: spec_bullish_def spec_ma_def spec_last_def np_mean_def lt_f_def
            butlast_append)
    then show ?thesis
      using check_crossover_by_spec [of 1 2 "pre @ [5, 4, 6]"] len by simp
  qed
  show ?thesis using short means long by blast
qed

theorem check_crossover_scenario_witness:
  "[5 :: rat] \<noteq> [] \<and> check_crossover ([5] @ [5, 4, 6]) 1 2 = BullishCross \<and>
   check_crossover [5, 4, 6] 1 2 = NoSignal"
proof -
  from check_crossover_scenario
  have a: "check_crossover [5, 4, 6] 1 2 = NoSignal"
    and b: "\<forall>pre. pre \<noteq> [] \<longrightarrow> check_crossover (pre @ [5, 4, 6]) 1 2 = BullishCross"
    by blast+
  from b have "check_crossover ([5] @ [5, 4, 6]) 1 2 = BullishCross" by blast
  with a show ?thesis by simp
qed

text \<open>Claim C2 as it is written: the source does not report a bullish cross on the
  closes 5, 4, 6 with the windows 1 and 2.\<close>

theorem check_crossover_scenario_refuted:
  "check_crossover [5, 4, 6] 1 2 \<noteq> BullishCross"
  by (simp add: check_crossover_def)

text \<open>
  Claim C4. For every close series \<open>S\<close> and all windows \<open>f\<close> and \<open>s\<close> with fewer than
  \<open>s + 2\<close> closes, the detector returns NoSignal, whatever the closes and \<open>f\<close> are.
\<close>

theorem check_crossover_short:
  assumes "int (length S) < s + 2"
  shows "check_crossover S f s = NoSignal"
  using assms by (simp add: check_crossover_def)

theorem check_crossover_short_witness:
  "int (length [5, 4, 6 :: rat]) < 2 + 2 \<and> check_crossover [5, 4, 6] 1 2 = NoSignal \<and>
   check_crossover [] 0 (- 1) = NoSignal"
  using check_crossover_short [of "[5, 4, 6]" 2 1] check_crossover_short [of "[]" "- 1" 0]
  by simp

section \<open>The claims about startup and the handler\<close>

text \<open>
  Claim C7. For every message whose chat identifier differs from the configured
  \<^verbatim>\<open>chat_id\<close>, which the source decides on their \<^verbatim>\<open>str\<close>, the handler leaves
  the whole state as it was, whatever the text of the message: no entry of the
  registry, no monitor, no symbol and no saved document changes, and no message is
  sent. What it returns is the acknowledgment that every path returns.
\<close>

theorem unauthorized_ignored:
  assumes "py_str (msg_chat_id m) \<noteq> py_str (chat_id (config st))"
  shows "telegram_webhook (Some m) st = st"
  using assms by (simp add: telegram_webhook_def Let_def)

text \<open>
  The theorem at an \<^verbatim>\<open>/addsymbol\<close> command from chat 7 when chat 42 is configured.
\<close>

theorem unauthorized_ignored_witness:
  "py_str (msg_chat_id \<lparr>msg_chat_id = PInt 7, msg_text = ''/addsymbol EURUSD 5 20 60''\<rparr>)
     \<noteq> py_str (chat_id (config (init_state \<lparr>bot_token = ''T'', chat_id = PStr ''42'', symbols = []\<rparr>))) \<and>
   telegram_webhook (Some \<lparr>msg_chat_id = PInt 7, msg_text = ''/addsymbol EURUSD 5 20 60''\<rparr>)
     (init_state \<lparr>bot_token = ''T'', chat_id = PStr ''42'', symbols = []\<rparr>)
     = init_state \<lparr>bot_token = ''T'', chat_id = PStr ''42'', symbols = []\<rparr>"
proof -
  have h: "py_str (msg_chat_id \<lparr>msg_chat_id = PInt 7, msg_text = ''/addsymbol EURUSD 5 20 60''\<rparr>)
     \<noteq> py_str (chat_id (config (init_state \<lparr>bot_token = ''T'', chat_id = PStr ''42'', symbols = []\<rparr>)))"
    by (simp add: init_state_def str_eval)
  show ?thesis using h unauthorized_ignored [OF h] by simp
qed

text \<open>
  Claim C8, as the code has it. If the configuration file is missing
  (\<^verbatim>\<open>FileNotFoundError\<close>) or its text is not JSON (\<^verbatim>\<open>JSONDecodeError\<close>),
  \<^verbatim>\<open>load_config\<close> does not fail and returns the default document, with an empty
  token, an empty chat identifier and no symbols; the process then starts with no
  monitor. These are the two exceptions of the \<^verbatim>\<open>except\<close> clause, and the only
  corruption that is caught.
\<close>

theorem load_config_falls_back:
  assumes "fs CONFIG_FILE = Inl FileNotFoundError \<or>
           (\<exists>txt. fs CONFIG_FILE = Inr txt \<and> json_load txt = Inl JSONDecodeError)"
  shows "load_config fs json_load = Inr (Document default_config) \<and>
         startup fs json_load = Inr (init_state default_config) \<and>
         monitors (init_state default_config) = [] \<and>
         heap (init_state default_config) = [] \<and>
         bot_token default_config = [] \<and>
         chat_id default_config = PStr [] \<and>
         symbols default_config = []"
proof -
  have "load_config fs json_load = Inr (Document default_config)"
    using assms by (auto simp add: load_config_def caught_def)
  moreover have "start_all_monitors (init_state default_config) = init_state default_config"
    by (simp add: start_all_monitors_def init_state_def default_config_def)
  ultimately show ?thesis
    by (simp add: startup_def init_state_def default_config_def)
qed

text \<open>
  The theorem with no file at all, and with a file whose text is cut short.
\<close>

theorem load_config_falls_back_witness:
  "startup (\<lambda>p. Inl FileNotFoundError) (\<lambda>t. Inl JSONDecodeError)
     = Inr (init_state default_config) \<and>
   startup (\<lambda>p. if p = ''config.json'' then Inr ''{bot_token'' else Inl FileNotFoundError)
      (\<lambda>t. Inl JSONDecodeError) = Inr (init_state default_config) \<and>
   monitors (init_state default_config) = []"
  using load_config_falls_back [of "\<lambda>p. Inl FileNotFoundError" "\<lambda>t. Inl JSONDecodeError"]
    load_config_falls_back
      [of "\<lambda>p. if p = ''config.json'' then Inr ''{bot_token'' else Inl FileNotFoundError"
          "\<lambda>t. Inl JSONDecodeError"]
  by (simp add: CONFIG_FILE_def)

text \<open>
  Any other failure is not caught and ends the start: an exception of opening or
  reading the file that is not \<^verbatim>\<open>FileNotFoundError\<close>, and a file whose JSON value
  is not an object.
\<close>

lemma load_config_other_error:
  assumes "fs CONFIG_FILE = Inl e" and "\<not> caught e"
  shows "load_config fs json_load = Inl e" and "startup fs json_load = Inl e"
  using assms by (simp_all add: load_config_def startup_def)

lemma startup_not_an_object:
  assumes "fs CONFIG_FILE = Inr txt" and "json_load txt = Inr NotAnObject"
  shows "startup fs json_load = Inl AttributeError"
  using assms by (simp add: load_config_def startup_def)

text \<open>
  Claim C8 as it is written, for every corrupt file, fails. A file whose bytes are not
  text makes reading raise \<^verbatim>\<open>UnicodeDecodeError\<close>, which \<^verbatim>\<open>load_config\<close> does not
  catch. A file that holds \<^verbatim>\<open>[1, 2]\<close> is JSON, but no configuration:
  \<^verbatim>\<open>load_config\<close> returns the list, and \<^verbatim>\<open>config.get\<close> on it raises
  \<^verbatim>\<open>AttributeError\<close> while the module is loaded. In both cases there is no fallback
  to the default document and the process does not start.
\<close>

theorem corrupt_config_ends_start:
  "load_config undecodable_file json_load_list = Inl UnicodeDecodeError \<and>
   startup undecodable_file json_load_list = Inl UnicodeDecodeError \<and>
   load_config list_file json_load_list = Inr NotAnObject \<and>
   startup list_file json_load_list = Inl AttributeError \<and>
   startup list_file json_load_list \<noteq> Inr (init_state default_config)"
  by (simp add: load_config_def startup_def caught_def undecodable_file_def list_file_def
        json_load_list_def)

text \<open>
  Claim C9, as the code has it. The handler stores the integers of the command as
  they are. So the windows of every timeframe of the configuration and of every
  running monitor are at least 1 after any sequence of requests whose \<^verbatim>\<open>/addsymbol\<close>
  commands carry windows that are at least 1, from a state where they are; and they
  are after \<^verbatim>\<open>start_all_monitors\<close> when they are in the loaded configuration.
\<close>

theorem windows_stay_positive:
  "(windows_pos st \<and> list_all addsymbol_windows_pos ds \<longrightarrow> windows_pos (run_webhook ds st)) \<and>
   (list_all (\<lambda>e. list_all (\<lambda>tf. 1 \<le> fast_ma tf \<and> 1 \<le> slow_ma tf) (timeframes e)) (symbols c)
      \<longrightarrow> windows_pos (start_all_monitors (init_state c)))"
  using windows_pos_run [of st ds] windows_pos_startup [of c] by blast

text \<open>
  The theorem at one command with the windows 5 and 20, from an empty configuration.
\<close>

theorem windows_stay_positive_witness:
  "windows_pos (init_state \<lparr>bot_token = ''T'', chat_id = PStr ''42'', symbols = []\<rparr>) \<and>
   list_all addsymbol_windows_pos
     [Some \<lparr>msg_chat_id = PInt 42, msg_text = ''/addsymbol EURUSD 5 20 60''\<rparr>] \<and>
   windows_pos (run_webhook
     [Some \<lparr>msg_chat_id = PInt 42, msg_text = ''/addsymbol EURUSD 5 20 60''\<rparr>]
     (init_state \<lparr>bot_token = ''T'', chat_id = PStr ''42'', symbols = []\<rparr>))"
proof -
  have a: "windows_pos (init_state \<lparr>bot_token = ''T'', chat_id = PStr ''42'', symbols = []\<rparr>)"
    by (simp add: windows_pos_def init_state_def)
  have b: "list_all addsymbol_windows_pos
     [Some \<lparr>msg_chat_id = PInt 42, msg_text = ''/addsymbol EURUSD 5 20 60''\<rparr>]"
    by (simp add: addsymbol_windows_pos_def Let_def text_eval)
  show ?thesis
    using a b windows_stay_positive
      [of "init_state \<lparr>bot_token = ''T'', chat_id = PStr ''42'', symbols = []\<rparr>"
          "[Some \<lparr>msg_chat_id = PInt 42, msg_text = ''/addsymbol EURUSD 5 20 60''\<rparr>]"]
    by blast
qed

text \<open>
  Claim C9 as it is written fails: from an empty configuration the authorized command
  \<^verbatim>\<open>/addsymbol EURUSD 0 -5 60\<close> is accepted, and the windows 0 and \<open>- 5\<close> are
  stored, saved and given to a running monitor.
\<close>

theorem nonpositive_windows_accepted:
  "windows_pos (init_state \<lparr>bot_token = ''T'', chat_id = PStr ''42'', symbols = []\<rparr>) \<and>
   telegram_webhook (Some \<lparr>msg_chat_id = PInt 42, msg_text = ''/addsymbol EURUSD 0 -5 60''\<rparr>)
     (init_state \<lparr>bot_token = ''T'', chat_id = PStr ''42'', symbols = []\<rparr>)
   = \<lparr>config = \<lparr>bot_token = ''T'', chat_id = PStr ''42'',
         symbols = [\<lparr>name = ''EURUSD'', timeframes = [\<lparr>fast_ma = 0, slow_ma = - 5, granularity = 60\<rparr>]\<rparr>]\<rparr>,
       symbols_key = True, monitors = [(''EURUSD_60'', 0)],
       heap = [\<lparr>m_name = ''EURUSD'', m_fast_ma = 0, m_slow_ma = - 5, m_granularity = 60,
                m_closes = [], m_started = True, m_active = True\<rparr>],
       sent = [''Added EURUSD 60s with fast MA=0 slow MA=-5''],
       saved = [Document \<lparr>bot_token = ''T'', chat_id = PStr ''42'',
         symbols = [\<lparr>name = ''EURUSD'', timeframes = [\<lparr>fast_ma = 0, slow_ma = - 5, granularity = 60\<rparr>]\<rparr>]\<rparr>]\<rparr> \<and>
   \<not> windows_pos (telegram_webhook
     (Some \<lparr>msg_chat_id = PInt 42, msg_text = ''/addsymbol EURUSD 0 -5 60''\<rparr>)
     (init_state \<lparr>bot_token = ''T'', chat_id = PStr ''42'', symbols = []\<rparr>))"
  by (simp add: telegram_webhook_def cmd_addsymbol_def init_state_def Let_def text_eval str_eval
       find_symbol_def set_symbols_def save_config_def document_def send_telegram_def start_monitor_def
       mk_key_def dict_in_def dict_set_def Monitor_def monitor_start_def windows_pos_def running_def)

text \<open>
  Claim C10, as the code has it. Two commands from the same chat whose words are the
  same but for the letter case of the symbol argument leave the same state, so they
  address the same key. Every name that a command stores is upper-cased: when the
  names of the symbols and monitors are upper-cased they stay so after any sequence of
  requests, and they are so from the start when the names of the loaded
  configuration are.
\<close>

theorem symbol_case_normalised:
  "(msg_chat_id m1 = msg_chat_id m2 \<and> split (strip (msg_text m1)) = c # a # rest \<and>
    split (strip (msg_text m2)) = c # b # rest \<and> upper a = upper b
      \<longrightarrow> telegram_webhook (Some m1) st = telegram_webhook (Some m2) st) \<and>
   (names_upper st \<longrightarrow> names_upper (run_webhook ds st)) \<and>
   (list_all (\<lambda>e. upper (name e) = name e) (symbols cf)
      \<longrightarrow> names_upper (run_webhook ds (start_all_monitors (init_state cf))))"
  using webhook_symbol_case [of m1 m2 c a rest b st] names_upper_run [of st ds]
    names_upper_run [OF names_upper_startup, of cf ds]
  by blast

text \<open>
  The theorem at \<^verbatim>\<open>eurusd\<close> and \<^verbatim>\<open>EurUsd\<close>, from an empty configuration.
\<close>

theorem symbol_case_normalised_witness:
  "telegram_webhook (Some \<lparr>msg_chat_id = PInt 42, msg_text = ''/addsymbol eurusd 5 20 60''\<rparr>)
     (init_state \<lparr>bot_token = ''T'', chat_id = PStr ''42'', symbols = []\<rparr>) =
   telegram_webhook (Some \<lparr>msg_chat_id = PInt 42, msg_text = '' /addsymbol  EurUsd 5 20 60''\<rparr>)
     (init_state \<lparr>bot_token = ''T'', chat_id = PStr ''42'', symbols = []\<rparr>) \<and>
   names_upper (run_webhook
     [Some \<lparr>msg_chat_id = PInt 42, msg_text = ''/addsymbol eurusd 5 20 60''\<rparr>]
     (init_state \<lparr>bot_token = ''T'', chat_id = PStr ''42'', symbols = []\<rparr>))"
proof -
  let ?st = "init_state \<lparr>bot_token = ''T'', chat_id = PStr ''42'', symbols = []\<rparr>"
  let ?m1 = "\<lparr>msg_chat_id = PInt 42, msg_text = ''/addsymbol eurusd 5 20 60''\<rparr>"
  let ?m2 = "\<lparr>msg_chat_id = PInt 42, msg_text = '' /addsymbol  EurUsd 5 20 60''\<rparr>"
  have a: "msg_chat_id ?m1 = msg_chat_id ?m2 \<and>
      split (strip (msg_text ?m1)) = ''/addsymbol'' # ''eurusd'' # [''5'', ''20'', ''60''] \<and>
      split (strip (msg_text ?m2)) = ''/addsymbol'' # ''EurUsd'' # [''5'', ''20'', ''60''] \<and>
      upper ''eurusd'' = upper ''EurUsd''"
    by (simp add: text_eval)
  have b: "names_upper ?st"
    by (simp add: names_upper_def init_state_def)
  show ?thesis
    using a b symbol_case_normalised
      [of ?m1 ?m2 "''/addsymbol''" "''eurusd''" "[''5'', ''20'', ''60'']" "''EurUsd''" ?st
          "[Some ?m1]"]
    by blast
qed

text \<open>
  Claim C10 as it is written, for every stored name, fails: a name of the loaded
  configuration is stored as it is written. With \<^verbatim>\<open>eurusd\<close> in the file, the
  configuration, the monitor and the key have the lower-case name after
  \<^verbatim>\<open>start_all_monitors\<close>, and \<^verbatim>\<open>/remsymbol eurusd 60\<close> looks for
  \<^verbatim>\<open>EURUSD\<close> and finds no symbol.
\<close>

theorem lower_case_name_from_file:
  "map name (symbols (config (start_all_monitors (init_state
      \<lparr>bot_token = ''T'', chat_id = PStr ''42'',
       symbols = [\<lparr>name = ''eurusd'', timeframes = [\<lparr>fast_ma = 5, slow_ma = 20, granularity = 60\<rparr>]\<rparr>]\<rparr>))))
     = [''eurusd''] \<and>
   map m_name (heap (start_all_monitors (init_state
      \<lparr>bot_token = ''T'', chat_id = PStr ''42'',
       symbols = [\<lparr>name = ''eurusd'', timeframes = [\<lparr>fast_ma = 5, slow_ma = 20, granularity = 60\<rparr>]\<rparr>]\<rparr>)))
     = [''eurusd''] \<and>
   monitors (start_all_monitors (init_state
      \<lparr>bot_token = ''T'', chat_id = PStr ''42'',
       symbols = [\<lparr>name = ''eurusd'', timeframes = [\<lparr>fast_ma = 5, slow_ma = 20, granularity = 60\<rparr>]\<rparr>]\<rparr>))
     = [(''eurusd_60'', 0)] \<and>
   upper ''eurusd'' \<noteq> ''eurusd'' \<and>
   \<not> names_upper (start_all_monitors (init_state
      \<lparr>bot_token = ''T'', chat_id = PStr ''42'',
       symbols = [\<lparr>name = ''eurusd'', timeframes = [\<lparr>fast_ma = 5, slow_ma = 20, granularity = 60\<rparr>]\<rparr>]\<rparr>)) \<and>
   telegram_webhook (Some \<lparr>msg_chat_id = PInt 42, msg_text = ''/remsymbol eurusd 60''\<rparr>)
     (start_all_monitors (init_state
      \<lparr>bot_token = ''T'', chat_id = PStr ''42'',
       symbols = [\<lparr>name = ''eurusd'', timeframes = [\<lparr>fast_ma = 5, slow_ma = 20, granularity = 60\<rparr>]\<rparr>]\<rparr>))
     = send_telegram ''No symbol EURUSD found.'' (start_all_monitors (init_state
      \<lparr>bot_token = ''T'', chat_id = PStr ''42'',
       symbols = [\<lparr>name = ''eurusd'', timeframes = [\<lparr>fast_ma = 5, slow_ma = 20, granularity = 60\<rparr>]\<rparr>]\<rparr>))"
  by (simp add: telegram_webhook_def cmd_remsymbol_def init_state_def Let_def text_eval str_eval
       find_symbol_def start_all_monitors_def start_monitor_def names_upper_def
       mk_key_def dict_in_def dict_set_def Monitor_def monitor_start_def)

text \<open>
  Claim C6, as the code has it. An authorized \<^verbatim>\<open>/remsymbol SYMBOL GRANULARITY\<close>
  command is a text of three words whose third word is an integer. The handler looks
  for the upper-cased argument: the symbol's configuration is the first entry of the
  list whose stored name is the upper-cased argument, and the timeframe is its first
  one with that granularity. When both exist: that one timeframe leaves the
  configuration and nothing else of it changes; if it was the last timeframe of the
  entry, the entry leaves the list; the key leaves the registry and the monitor it
  referred to is stopped, the other monitors being untouched; the dictionary
  \<^verbatim>\<open>config\<close> is written, which holds the new symbol list when the loaded document
  had a \<^verbatim>\<open>symbols\<close> entry and no symbol list otherwise; and the confirmation is
  sent. When no stored name is the upper-cased argument, or the entry has no timeframe
  of that granularity, the message that says so is sent and nothing else changes.
\<close>

theorem remsymbol_removes:
  assumes auth: "py_str (msg_chat_id m) = py_str (chat_id (config st))"
    and words: "split (strip (msg_text m)) = [c, a, sg]"
    and cmd: "lower c = ''/remsymbol''"
    and gran: "py_int sg = Some g"
    and st': "st' = telegram_webhook (Some m) st"
  shows
    "(\<forall>e tf. find_symbol (upper a) (symbols (config st)) = Some e \<and>
         find_timeframe g (timeframes e) = Some tf \<longrightarrow>
         cfg_entries (symbols (config st')) = remove1 (upper a, tf) (cfg_entries (symbols (config st))) \<and>
         (timeframes e = [tf] \<longrightarrow> symbols (config st') = remove1 e (symbols (config st))) \<and>
         (timeframes e \<noteq> [tf] \<longrightarrow>
            map name (symbols (config st')) = map name (symbols (config st)) \<and>
            find_symbol (upper a) (symbols (config st')) =
              Some (e\<lparr>timeframes := remove1 tf (timeframes e)\<rparr>)) \<and>
         monitors st' = dict_del (mk_key (upper a) g) (monitors st) \<and>
         \<not> dict_in (mk_key (upper a) g) (monitors st') \<and>
         (\<forall>i. map_of (monitors st) (mk_key (upper a) g) = Some i \<and> i < length (heap st) \<longrightarrow>
            heap st' = (heap st)[i := monitor_stop (heap st ! i)] \<and> \<not> running (heap st' ! i)) \<and>
         (map_of (monitors st) (mk_key (upper a) g) = None \<longrightarrow> heap st' = heap st) \<and>
         bot_token (config st') = bot_token (config st) \<and>
         chat_id (config st') = chat_id (config st) \<and>
         symbols_key st' = symbols_key st \<and>
         saved st' = saved st @ [document st'] \<and>
         sent st' = sent st @ [''Removed '' @ upper a @ '' '' @ str_int g @ ''s monitor.'']) \<and>
     (upper a \<notin> set (map name (symbols (config st))) \<longrightarrow>
         st' = send_telegram (''No symbol '' @ upper a @ '' found.'') st) \<and>
     (\<forall>e. find_symbol (upper a) (symbols (config st)) = Some e \<and>
         g \<notin> set (map granularity (timeframes e)) \<longrightarrow>
         st' = send_telegram (''No timeframe '' @ str_int g @ ''s found for '' @ upper a) st)"
proof -
  let ?parts = "[c, a, sg]"
  let ?n = "upper a"
  let ?syms = "symbols (config st)"
  have run: "st' = cmd_remsymbol ?parts st"
    using webhook_remsymbol [OF auth words cmd] st' by simp
  have args: "length ?parts = 3" "py_int (?parts ! 2) = Some g" "upper (?parts ! 1) = ?n"
    using gran by simp_all
  have found: "cfg_entries (symbols (config st')) = remove1 (?n, tf) (cfg_entries ?syms) \<and>
         (timeframes e = [tf] \<longrightarrow> symbols (config st') = remove1 e ?syms) \<and>
         (timeframes e \<noteq> [tf] \<longrightarrow>
            map name (symbols (config st')) = map name ?syms \<and>
            find_symbol ?n (symbols (config st')) =
              Some (e\<lparr>timeframes := remove1 tf (timeframes e)\<rparr>)) \<and>
         monitors st' = dict_del (mk_key ?n g) (monitors st) \<and>
         \<not> dict_in (mk_key ?n g) (monitors st') \<and>
         (\<forall>i. map_of (monitors st) (mk_key ?n g) = Some i \<and> i < length (heap st) \<longrightarrow>
            heap st' = (heap st)[i := monitor_stop (heap st ! i)] \<and> \<not> running (heap st' ! i)) \<and>
         (map_of (monitors st) (mk_key ?n g) = None \<longrightarrow> heap st' = heap st) \<and>
         bot_token (config st') = bot_token (config st) \<and>
         chat_id (config st') = chat_id (config st) \<and>
         symbols_key st' = symbols_key st \<and>
         saved st' = saved st @ [document st'] \<and>
         sent st' = sent st @ [''Removed '' @ ?n @ '' '' @ str_int g @ ''s monitor.'']"
    if fs: "find_symbol ?n ?syms = Some e" and ft: "find_timeframe g (timeframes e) = Some tf"
    for e tf
  proof -
    define e' where "e' = e\<lparr>timeframes := remove1 tf (timeframes e)\<rparr>"
    have fs': "find_symbol (upper (?parts ! 1)) ?syms = Some e" using fs by simp
    note res = cmd_remsymbol_found [OF args(1,2) fs' ft e'_def, folded run, unfolded args(3)]
    have ne: "name e = ?n" using find_symbol_Some(2) [OF fs] .
    have ne': "name e' = ?n" using ne by (simp add: e'_def)
    have tfin: "tf \<in> set (timeframes e)" using find_timeframe_Some(1) [OF ft] .
    have last: "timeframes e' = [] \<longleftrightarrow> timeframes e = [tf]"
      using remove1_last [OF tfin] by (simp add: e'_def)
    have upd: "cfg_entries (update_symbol ?n (\<lambda>s. e') ?syms) = remove1 (?n, tf) (cfg_entries ?syms)"
      unfolding e'_def using fs tfin by (rule cfg_entries_update_symbol)
    have entries: "cfg_entries (symbols (config st')) = remove1 (?n, tf) (cfg_entries ?syms)"
      using upd by (simp add: res(1) cfg_entries_remove1_empty)
    have gone: "symbols (config st') = remove1 e ?syms" if "timeframes e = [tf]"
      using that last remove1_update_symbol [OF fs ne'] by (simp add: res(1))
    have kept: "map name (symbols (config st')) = map name ?syms \<and>
        find_symbol ?n (symbols (config st')) = Some e'" if "timeframes e \<noteq> [tf]"
    proof -
      have "symbols (config st') = update_symbol ?n (\<lambda>s. e') ?syms"
        using that last by (simp add: res(1))
      moreover have "map name (update_symbol ?n (\<lambda>s. e') ?syms) = map name ?syms"
        using ne' by (rule map_name_update_const)
      moreover have "find_symbol ?n (update_symbol ?n (\<lambda>s. e') ?syms) = Some e'"
        using find_symbol_update_symbol [OF fs, of "\<lambda>s. e'"] ne' by simp
      ultimately show ?thesis by simp
    qed
    have stopped: "heap st' = (heap st)[i := monitor_stop (heap st ! i)] \<and> \<not> running (heap st' ! i)"
      if "map_of (monitors st) (mk_key ?n g) = Some i" and "i < length (heap st)" for i
      using that by (simp add: res(5) not_running_stop)
    have same: "heap st' = heap st" if "map_of (monitors st) (mk_key ?n g) = None"
      using that by (simp add: res(5))
    have flag: "symbols_key st' = symbols_key st"
      by (simp add: run cmd_remsymbol_symbols_key)
    show ?thesis
      using entries gone kept stopped same flag res(2,3,4,6,7)
        dict_in_dict_del [of "mk_key ?n g" "monitors st"]
      by (simp add: e'_def not_running_stop)
  qed
  have nosym: "st' = send_telegram (''No symbol '' @ ?n @ '' found.'') st"
    if "?n \<notin> set (map name ?syms)"
  proof -
    have "find_symbol ?n ?syms = None" using that by (simp add: find_symbol_None)
    then show ?thesis using gran by (simp add: run cmd_remsymbol_def)
  qed
  have notf: "st' = send_telegram (''No timeframe '' @ str_int g @ ''s found for '' @ ?n) st"
    if "find_symbol ?n ?syms = Some e" and "g \<notin> set (map granularity (timeframes e))" for e
  proof -
    have "find_timeframe g (timeframes e) = None" using that(2) by (simp add: find_timeframe_None)
    then show ?thesis using gran that(1) by (simp add: run cmd_remsymbol_def)
  qed
  show ?thesis
    using found nosym notf by blast
qed

text \<open>
  The theorem at \<^verbatim>\<open>/remsymbol eurusd 60\<close>, when EURUSD has this one timeframe and
  its monitor runs: the symbol is gone from the list and from the saved document, the
  registry is empty and the monitor is stopped.
\<close>

theorem remsymbol_removes_witness:
  "py_str (PInt 42) = py_str (PStr ''42'') \<and>
   split (strip ''/remsymbol eurusd 60'') = [''/remsymbol'', ''eurusd'', ''60''] \<and>
   lower ''/remsymbol'' = ''/remsymbol'' \<and> py_int ''60'' = Some 60 \<and>
   telegram_webhook (Some \<lparr>msg_chat_id = PInt 42, msg_text = ''/remsymbol eurusd 60''\<rparr>)
     \<lparr>config = \<lparr>bot_token = ''T'', chat_id = PStr ''42'',
         symbols = [\<lparr>name = ''EURUSD'', timeframes = [\<lparr>fast_ma = 5, slow_ma = 20, granularity = 60\<rparr>]\<rparr>]\<rparr>,
       symbols_key = True, monitors = [(''EURUSD_60'', 0)],
       heap = [\<lparr>m_name = ''EURUSD'', m_fast_ma = 5, m_slow_ma = 20, m_granularity = 60,
                m_closes = [], m_started = True, m_active = True\<rparr>],
       sent = [], saved = []\<rparr>
   = \<lparr>config = \<lparr>bot_token = ''T'', chat_id = PStr ''42'', symbols = []\<rparr>,
       symbols_key = True, monitors = [],
       heap = [\<lparr>m_name = ''EURUSD'', m_fast_ma = 5, m_slow_ma = 20, m_granularity = 60,
                m_closes = [], m_started = True, m_active = False\<rparr>],
       sent = [''Removed EURUSD 60s monitor.''],
       saved = [Document \<lparr>bot_token = ''T'', chat_id = PStr ''42'', symbols = []\<rparr>]\<rparr>"
proof -
  let ?tf = "\<lparr>fast_ma = 5, slow_ma = 20, granularity = 60\<rparr>"
  let ?e = "\<lparr>name = ''EURUSD'', timeframes = [?tf]\<rparr>"
  let ?mon = "\<lparr>m_name = ''EURUSD'', m_fast_ma = 5, m_slow_ma = 20, m_granularity = 60,
                m_closes = [], m_started = True, m_active = True\<rparr>"
  let ?st = "\<lparr>config = \<lparr>bot_token = ''T'', chat_id = PStr ''42'', symbols = [?e]\<rparr>,
       symbols_key = True, monitors = [(''EURUSD_60'', 0)], heap = [?mon], sent = [],
       saved = []\<rparr>"
  let ?m = "\<lparr>msg_chat_id = PInt 42, msg_text = ''/remsymbol eurusd 60''\<rparr>"
  let ?st' = "telegram_webhook (Some ?m) ?st"
  have h1: "py_str (msg_chat_id ?m) = py_str (chat_id (config ?st))"
    by (simp add: str_eval)
  have h2: "split (strip (msg_text ?m)) = [''/remsymbol'', ''eurusd'', ''60'']"
    by (simp add: text_eval)
  have h3: "lower ''/remsymbol'' = ''/remsymbol''"
    by (simp add: text_eval)
  have h4: "py_int ''60'' = Some 60"
    by (simp add: text_eval)
  have up: "upper ''eurusd'' = ''EURUSD''"
    by (simp add: text_eval)
  have key: "mk_key ''EURUSD'' 60 = ''EURUSD_60''"
    by (simp add: mk_key_def str_eval)
  have f1: "find_symbol (upper ''eurusd'') (symbols (config ?st)) = Some ?e"
    by (simp add: up find_symbol_def)
  have f2: "find_timeframe 60 (timeframes ?e) = Some ?tf"
    by (simp add: find_timeframe_def)
  have f3: "timeframes ?e = [?tf]" by simp
  have f4: "map_of (monitors ?st) (mk_key (upper ''eurusd'') 60) = Some 0 \<and> 0 < length (heap ?st)"
    by (simp add: up key)
  from remsymbol_removes [OF h1 h2 h3 h4 refl] f1 f2 f3 f4
  have r: "symbols (config ?st') = remove1 ?e (symbols (config ?st)) \<and>
      monitors ?st' = dict_del (mk_key (upper ''eurusd'') 60) (monitors ?st) \<and>
      heap ?st' = (heap ?st)[0 := monitor_stop (heap ?st ! 0)] \<and>
      bot_token (config ?st') = bot_token (config ?st) \<and>
      chat_id (config ?st') = chat_id (config ?st) \<and>
      symbols_key ?st' = symbols_key ?st \<and>
      saved ?st' = saved ?st @ [document ?st'] \<and>
      sent ?st' = sent ?st @ [''Removed '' @ upper ''eurusd'' @ '' '' @ str_int 60 @ ''s monitor.'']"
    by blast
  have cfg: "config ?st' = \<lparr>bot_token = ''T'', chat_id = PStr ''42'', symbols = []\<rparr>"
    using r by (cases "config ?st'") simp
  have flag: "symbols_key ?st'"
    using r by simp
  have sv: "saved ?st' = [Document \<lparr>bot_token = ''T'', chat_id = PStr ''42'', symbols = []\<rparr>]"
    using r document_with_key [OF flag] cfg by simp
  have rest: "monitors ?st' = [] \<and> heap ?st' = [?mon\<lparr>m_active := False\<rparr>] \<and>
      sent ?st' = [''Removed EURUSD 60s monitor.'']"
    using r by (simp add: up key dict_del_def monitor_stop_def str_eval)
  have "?st' = \<lparr>config = \<lparr>bot_token = ''T'', chat_id = PStr ''42'', symbols = []\<rparr>,
       symbols_key = True, monitors = [], heap = [?mon\<lparr>m_active := False\<rparr>],
       sent = [''Removed EURUSD 60s monitor.''],
       saved = [Document \<lparr>bot_token = ''T'', chat_id = PStr ''42'', symbols = []\<rparr>]\<rparr>"
    using cfg flag sv rest by (cases ?st') simp
  then show ?thesis
    using h1 h2 h3 h4 by simp
qed

text \<open>
  Claim C6 as it is written, for every existing timeframe, fails at a symbol whose
  stored name has a lower-case letter, which \<^verbatim>\<open>config.json\<close> can bring. Started
  from a document with the symbol \<^verbatim>\<open>eurusd\<close> and its timeframe of 60 seconds, the
  timeframe is configured and its monitor runs under the key \<^verbatim>\<open>eurusd_60\<close>. The
  authorized command \<^verbatim>\<open>/remsymbol eurusd 60\<close> names it; the handler looks for
  \<^verbatim>\<open>EURUSD\<close>, replies that there is no such symbol, and removes, stops and writes
  nothing.
\<close>

theorem remsymbol_lower_case_not_found:
  "py_str (PInt 42) = py_str (chat_id (config (start_all_monitors (init_state lower_case_config)))) \<and>
   cfg_entries (symbols (config (start_all_monitors (init_state lower_case_config))))
     = [(''eurusd'', \<lparr>fast_ma = 5, slow_ma = 20, granularity = 60\<rparr>)] \<and>
   monitors (start_all_monitors (init_state lower_case_config)) = [(''eurusd_60'', 0)] \<and>
   length (live_workers ''eurusd_60'' (start_all_monitors (init_state lower_case_config))) = 1 \<and>
   telegram_webhook (Some \<lparr>msg_chat_id = PInt 42, msg_text = ''/remsymbol eurusd 60''\<rparr>)
       (start_all_monitors (init_state lower_case_config))
     = send_telegram ''No symbol EURUSD found.'' (start_all_monitors (init_state lower_case_config)) \<and>
   cfg_entries (symbols (config (telegram_webhook
       (Some \<lparr>msg_chat_id = PInt 42, msg_text = ''/remsymbol eurusd 60''\<rparr>)
       (start_all_monitors (init_state lower_case_config)))))
     = [(''eurusd'', \<lparr>fast_ma = 5, slow_ma = 20, granularity = 60\<rparr>)] \<and>
   monitors (telegram_webhook
       (Some \<lparr>msg_chat_id = PInt 42, msg_text = ''/remsymbol eurusd 60''\<rparr>)
       (start_all_monitors (init_state lower_case_config))) = [(''eurusd_60'', 0)] \<and>
   length (live_workers ''eurusd_60'' (telegram_webhook
       (Some \<lparr>msg_chat_id = PInt 42, msg_text = ''/remsymbol eurusd 60''\<rparr>)
       (start_all_monitors (init_state lower_case_config)))) = 1 \<and>
   saved (telegram_webhook
       (Some \<lparr>msg_chat_id = PInt 42, msg_text = ''/remsymbol eurusd 60''\<rparr>)
       (start_all_monitors (init_state lower_case_config))) = []"
proof -
  let ?st = "\<lparr>config = lower_case_config, symbols_key = True, monitors = [(''eurusd_60'', 0)],
       heap = [\<lparr>m_name = ''eurusd'', m_fast_ma = 5, m_slow_ma = 20, m_granularity = 60,
                m_closes = [], m_started = True, m_active = True\<rparr>],
       sent = [], saved = []\<rparr>"
  have start: "start_all_monitors (init_state lower_case_config) = ?st"
    by (simp add: init_state_def start_all_monitors_def start_monitor_def str_eval
          lower_case_config_def mk_key_def dict_in_def dict_set_def Monitor_def monitor_start_def)
  have step: "telegram_webhook
      (Some \<lparr>msg_chat_id = PInt 42, msg_text = ''/remsymbol eurusd 60''\<rparr>) ?st
      = send_telegram ''No symbol EURUSD found.'' ?st"
    by (simp add: telegram_webhook_def cmd_remsymbol_def Let_def text_eval str_eval
          find_symbol_def lower_case_config_def)
  have key: "mk_key ''eurusd'' 60 = ''eurusd_60''"
    by (simp add: mk_key_def str_eval)
  have live: "length (live_workers ''eurusd_60'' ?st) = 1"
    by (simp add: live_workers_def running_def key_of_def key)
  have live': "length (live_workers ''eurusd_60'' (send_telegram ''No symbol EURUSD found.'' ?st)) = 1"
    using live by (simp add: live_workers_def)
  have auth: "py_str (PInt 42) = py_str (chat_id lower_case_config)"
    by (simp add: str_eval lower_case_config_def)
  have entries: "cfg_entries (symbols lower_case_config)
      = [(''eurusd'', \<lparr>fast_ma = 5, slow_ma = 20, granularity = 60\<rparr>)]"
    by (simp add: cfg_entries_def lower_case_config_def)
  show ?thesis
    unfolding start step
    using live live' auth entries by simp
qed

text \<open>
  When the loaded document has no \<^verbatim>\<open>symbols\<close> entry, the commands work on a list
  that the dictionary \<^verbatim>\<open>config\<close> does not hold, and what is written never has a
  symbol list: here after \<^verbatim>\<open>/addsymbol EURUSD 5 20 60\<close>.
\<close>

lemma saved_without_symbols_key:
  "saved (telegram_webhook
     (Some \<lparr>msg_chat_id = PInt 42, msg_text = ''/addsymbol EURUSD 5 20 60''\<rparr>)
     (start_all_monitors (init_state_no_symbols ''T'' (PStr ''42''))))
   = [DocumentNoSymbols ''T'' (PStr ''42'')]"
  by (simp add: telegram_webhook_def cmd_addsymbol_def init_state_no_symbols_def Let_def
       text_eval str_eval find_symbol_def set_symbols_def save_config_def document_def
       send_telegram_def start_monitor_def start_all_monitors_def
       mk_key_def dict_in_def dict_set_def Monitor_def monitor_start_def)



end
